theory Spec2Isabelle
  imports Complex_Main "HOL-Library.Sublist"
begin

section \<open>Command parsing (voiceService.ts, parseAndDispatchCommand)\<close>

text \<open>
  Strings are lists of 8-bit characters. \<open>toLowerCase\<close> maps the ASCII capitals to
  their small letters and leaves every other character alone; \<open>trim\<close> strips the ASCII
  white space (tab, line feed, vertical tab, form feed, carriage return, space) from both
  ends; \<open>String.prototype.includes\<close> is the contiguous-sublist test \<^const>\<open>sublist\<close>.
\<close>

text \<open>The intents, capitalised (\<open>help\<close> and \<open>stop\<close> are taken in Isabelle).\<close>

datatype intent = Audit | Scan | Explain | Report | Stop | Help | Unknown

definition toLowerCase_char :: "char \<Rightarrow> char" where
  "toLowerCase_char c =
     (case map_of (zip ''ABCDEFGHIJKLMNOPQRSTUVWXYZ'' ''abcdefghijklmnopqrstuvwxyz'') c of
        Some l \<Rightarrow> l
      | None \<Rightarrow> c)"

definition toLowerCase :: "string \<Rightarrow> string" where
  "toLowerCase s = map toLowerCase_char s"

definition isWhiteSpace :: "char \<Rightarrow> bool" where
  "isWhiteSpace c = (c \<in> set [CHR 0x09, CHR 0x0A, CHR 0x0B, CHR 0x0C, CHR 0x0D, CHR '' ''])"

definition trim :: "string \<Rightarrow> string" where
  "trim s = rev (dropWhile isWhiteSpace (rev (dropWhile isWhiteSpace s)))"

definition str_includes :: "string \<Rightarrow> string \<Rightarrow> bool" where
  "str_includes s keyword = sublist keyword s"

text \<open>
  The keyword table, in the order the object literal lists its keys:
  \<open>Object.entries\<close> enumerates string keys in insertion order.
\<close>

definition COMMAND_KEYWORDS :: "(string \<times> intent) list" where
  "COMMAND_KEYWORDS =
     [(''audit'', Audit),
      (''scan'', Scan),
      (''vulnerabilities'', Scan),
      (''vulnerability'', Scan),
      (''explain'', Explain),
      (''describe'', Explain),
      (''report'', Report),
      (''summary'', Report),
      (''stop'', Stop),
      (''cancel'', Stop),
      (''help'', Help),
      (''commands'', Help)]"

text \<open>
  The \<open>for\<close> loop with its \<open>break\<close>: the pair (matchedKeyword, matchedIntent), which
  starts as (\<open>''\<close>, unknown) and is set by the first entry whose keyword the text includes.
\<close>

fun matchKeyword :: "string \<Rightarrow> (string \<times> intent) list \<Rightarrow> string \<times> intent" where
  "matchKeyword lower [] = ('''', Unknown)"
| "matchKeyword lower ((keyword, i) # rest) =
     (if str_includes lower keyword then (keyword, i) else matchKeyword lower rest)"

definition parseCommand :: "string \<Rightarrow> string \<times> intent" where
  "parseCommand transcript = matchKeyword (trim (toLowerCase transcript)) COMMAND_KEYWORDS"

section \<open>Pure helpers of the engine stubs (runanywhere-voice.ts)\<close>

text \<open>\<open>text.split(' ')\<close>: the pieces between single spaces; the empty string gives one empty piece.\<close>

fun split_sp :: "string \<Rightarrow> string list" where
  "split_sp [] = [[]]"
| "split_sp (c # cs) =
     (if c = CHR '' '' then [] # split_sp cs
      else (case split_sp cs of w # ws \<Rightarrow> (c # w) # ws | [] \<Rightarrow> [[c]]))"

datatype mock = Mock (mock_text: string) (mock_intent: intent) (mock_delay: nat)

definition MOCK_TRANSCRIPTS :: "mock list" where
  "MOCK_TRANSCRIPTS =
     [Mock ''audit the repository'' Audit 2000,
      Mock ''scan for vulnerabilities'' Scan 2500,
      Mock ''explain the security findings'' Explain 3000,
      Mock ''generate security report'' Report 2200,
      Mock ''help me with commands'' Help 1800,
      Mock ''stop listening'' Stop 1500]"

text \<open>
  Numbers of type \<open>number\<close> are modelled as reals: confidences and durations are computed
  exactly, without the rounding of IEEE doubles. Rounding is monotone, so the order
  comparisons below are the ones the doubles satisfy; a timer delay is the whole number
  of milliseconds below the value.
\<close>

definition interimConfidence :: "nat \<Rightarrow> string list \<Rightarrow> real" where
  "interimConfidence wordIndex words = 0.5 + (real wordIndex / real (length words)) * 0.3"

definition finalConfidence :: "real \<Rightarrow> real" where
  "finalConfidence r = 0.92 + r * 0.07"

definition durationMs :: "string \<Rightarrow> real" where
  "durationMs txt = max 1000 ((real (length (split_sp txt)) / 150) * 60 * 1000)"

definition cappedDuration :: "string \<Rightarrow> real" where
  "cappedDuration txt = min (durationMs txt) 5000"

section \<open>State: engines, coordinator, timers and published events\<close>

datatype VoiceListeningState = Idle | Listening | Processing | Speaking | Error

datatype thought_type = T_info | T_processing | T_success | T_error | T_warning

text \<open>The statuses \<open>'started' | 'finished' | 'error'\<close> of the synthesis engine; no code sends the last.\<close>

datatype tts_status = Started | Finished | Failed

text \<open>A thrown \<open>Error\<close> with its message.\<close>

datatype exn = Exn string

text \<open>
  The closures handed to \<open>setTimeout\<close> and \<open>setInterval\<close>. Every call of
  \<open>WhisperSTT.startListening\<close> and of \<open>VoiceActivityDetector.start\<close> creates a scope with
  its own local variable (\<open>partialText\<close>, \<open>speechDetected\<close>); a closure names its scope
  by a number and carries the values it captured.
  \<^item> \<open>SttInterim scope wordIndex words\<close>: the interim callback (lines 88-94);
  \<^item> \<open>SttFinal scope text\<close>: the final callback (lines 98-104), \<open>text\<close> is \<open>mock.text\<close>;
  \<^item> \<open>TtsFinish awaited\<close>: the callback of \<open>PiperTTS.speak\<close> (lines 173-178); \<open>awaited\<close>
    tells whether \<open>VoiceService.speakAnalysis\<close> awaits the promise it resolves;
  \<^item> \<open>VadPoll scope\<close>: the interval callback of the detector (lines 236-244);
  \<^item> \<open>RecordingTimeout\<close>: the safety timeout of \<open>VoiceService.startListening\<close>;
  \<^item> \<open>ProcessingDone\<close>: the 500ms timeout of \<open>parseAndDispatchCommand\<close>.
\<close>

datatype callback =
    SttInterim nat nat "string list"
  | SttFinal nat string
  | TtsFinish bool
  | VadPoll nat
  | RecordingTimeout
  | ProcessingDone

text \<open>A pending timer: its handle, the time it is due, its period when it is an interval.\<close>

datatype timer = Timer (handle: nat) (due: nat) (period: "nat option") (callback: callback)

text \<open>
  What the engines hand to their callback and what the coordinator publishes to its
  subscribers (\<open>onStateChange\<close>, \<open>onTranscript\<close>, \<open>onCommand\<close>, \<open>onThoughtAdded\<close>,
  \<open>onTTSStatusChange\<close>), in the order of the calls. \<open>SttTranscript\<close> also records the scope
  of the \<open>startListening\<close> call whose timer made the call. Ids and timestamps of
  thoughts and transcripts are left out, and a thought's message is its ASCII text
  without the formatted confidence.
\<close>

datatype event =
    SttTranscript nat string real bool
  | TtsStatus tts_status
  | VadSignal bool
  | StateChange VoiceListeningState bool
  | Transcript string real bool
  | Command string intent string real
  | Thought string thought_type
  | TTSStatusChange bool

record world =
  now :: nat
  next_handle :: nat
  timers :: "timer list"
  next_scope :: nat
  partialText :: "nat \<Rightarrow> string"
  speechDetected :: "nat \<Rightarrow> bool"
  stt_initialized :: bool
  stt_isListening :: bool
  stt_onTranscript :: bool
  stt_currentTimeout :: "nat option"
  stt_interimTimeout :: "nat option"
  tts_initialized :: bool
  tts_isSpeaking :: bool
  tts_onStatus :: bool
  tts_currentTimeout :: "nat option"
  vad_initialized :: bool
  vad_isActive :: bool
  vad_onVAD :: bool
  vad_simulationInterval :: "nat option"
  isInitialized :: bool
  currentState :: VoiceListeningState
  recordingTimeout :: "nat option"
  events :: "event list"

text \<open>
  The three engine singletons and the coordinator before any call. A callback slot
  (\<open>onTranscript\<close>, \<open>onStatus\<close>, \<open>onVAD\<close>) is a flag: unset, or set to the handler that
  \<open>VoiceService.initialize\<close> installs, the only one this code ever installs. Handles
  start at 1, so that a handle is truthy in \<open>if (this.currentTimeout)\<close>.
\<close>

definition world0 :: world where
  "world0 = \<lparr> now = 0, next_handle = 1, timers = [], next_scope = 0,
     partialText = (\<lambda>_. ''''), speechDetected = (\<lambda>_. False),
     stt_initialized = False, stt_isListening = False, stt_onTranscript = False,
     stt_currentTimeout = None, stt_interimTimeout = None,
     tts_initialized = False, tts_isSpeaking = False, tts_onStatus = False,
     tts_currentTimeout = None,
     vad_initialized = False, vad_isActive = False, vad_onVAD = False,
     vad_simulationInterval = None,
     isInitialized = False, currentState = Idle, recordingTimeout = None,
     events = [] \<rparr>"

text \<open>The defaults of \<open>DEFAULT_STT_CONFIG\<close> that the coordinator reads; it never changes them.\<close>

definition vadEnabled :: bool where
  "vadEnabled = True"

definition maxRecordingMs :: nat where
  "maxRecordingMs = 30000"

subsection \<open>Timers\<close>

definition emit :: "event \<Rightarrow> world \<Rightarrow> world" where
  "emit e w = w\<lparr>events := events w @ [e]\<rparr>"

definition setTimeout :: "callback \<Rightarrow> nat \<Rightarrow> world \<Rightarrow> nat \<times> world" where
  "setTimeout cb delay w =
     (next_handle w,
      w\<lparr>next_handle := Suc (next_handle w),
        timers := timers w @ [Timer (next_handle w) (now w + delay) None cb]\<rparr>)"

definition setInterval :: "callback \<Rightarrow> nat \<Rightarrow> world \<Rightarrow> nat \<times> world" where
  "setInterval cb delay w =
     (next_handle w,
      w\<lparr>next_handle := Suc (next_handle w),
        timers := timers w @ [Timer (next_handle w) (now w + delay) (Some delay) cb]\<rparr>)"

text \<open>\<open>if (h) clearTimeout(h)\<close>; clearing a handle that is no longer pending does nothing.\<close>

fun clearTimeout :: "nat option \<Rightarrow> world \<Rightarrow> world" where
  "clearTimeout None w = w"
| "clearTimeout (Some h) w = w\<lparr>timers := filter (\<lambda>t. handle t \<noteq> h) (timers w)\<rparr>"

section \<open>The coordinator's private methods and the handlers it wires (voiceService.ts)\<close>

definition addThought :: "string \<Rightarrow> thought_type \<Rightarrow> world \<Rightarrow> world" where
  "addThought message ty w = emit (Thought message ty) w"

text \<open>\<open>updateState\<close> (lines 312-328): the published snapshot carries \<open>vad.getIsActive()\<close>.\<close>

definition updateState :: "VoiceListeningState \<Rightarrow> world \<Rightarrow> world" where
  "updateState st w = emit (StateChange st (vad_isActive w)) (w\<lparr>currentState := st\<rparr>)"

text \<open>\<open>parseAndDispatchCommand\<close> (lines 269-308).\<close>

definition parseAndDispatchCommand :: "string \<Rightarrow> real \<Rightarrow> world \<Rightarrow> world" where
  "parseAndDispatchCommand transcript confidence w =
     (case parseCommand transcript of (matchedKeyword, matchedIntent) \<Rightarrow>
        let w1 = (if matchedIntent = Unknown
                  then addThought (''Unrecognized command: '' @ transcript) T_warning w
                  else addThought (''Command detected: '' @ transcript) T_success w);
            w2 = updateState Processing w1;
            w3 = emit (Command matchedKeyword matchedIntent transcript confidence) w2
        in snd (setTimeout ProcessingDone 500 w3))"

text \<open>The callback given to \<open>stt.setOnTranscript\<close> (lines 127-142).\<close>

definition onTranscript_handler :: "string \<Rightarrow> real \<Rightarrow> bool \<Rightarrow> world \<Rightarrow> world" where
  "onTranscript_handler txt confidence isFinal w =
     (let w1 = emit (Transcript txt confidence isFinal) w
      in if isFinal
         then parseAndDispatchCommand txt confidence (addThought (''Transcript: '' @ txt) T_info w1)
         else w1)"

text \<open>The callback given to \<open>tts.setOnStatus\<close> (lines 145-149).\<close>

definition onStatus_handler :: "tts_status \<Rightarrow> world \<Rightarrow> world" where
  "onStatus_handler status w =
     (let isSpeaking = (status = Started);
          w1 = emit (TTSStatusChange isSpeaking) w
      in updateState (if isSpeaking then Speaking else Idle) w1)"

text \<open>The callback given to \<open>vad.setOnVAD\<close> (lines 152-157).\<close>

definition onVAD_handler :: "bool \<Rightarrow> world \<Rightarrow> world" where
  "onVAD_handler isSpeaking w =
     (if \<not> isSpeaking \<and> currentState w = Listening
      then addThought ''VAD: Silence detected, processing...'' T_info w
      else w)"

section \<open>The speech engine stub (class WhisperSTT)\<close>

text \<open>\<open>if (this.onTranscript) this.onTranscript(text, confidence, isFinal)\<close>.\<close>

definition stt_callback :: "nat \<Rightarrow> string \<Rightarrow> real \<Rightarrow> bool \<Rightarrow> world \<Rightarrow> world" where
  "stt_callback scope txt confidence isFinal w =
     (if stt_onTranscript w
      then onTranscript_handler txt confidence isFinal (emit (SttTranscript scope txt confidence isFinal) w)
      else w)"

text \<open>
  \<open>initialize\<close> after its simulated loading delay. The awaited delays of the three
  \<open>initialize\<close> methods (800, 600 and 300 ms) are not modelled: an initialisation runs
  as one step.
\<close>

definition stt_initialize :: "world \<Rightarrow> world" where
  "stt_initialize w = w\<lparr>stt_initialized := True\<rparr>"

text \<open>
  The loop of lines 86-95: one timer per word, each handle overwriting
  \<open>this.interimTimeout\<close>.
\<close>

definition scheduleInterim :: "nat \<Rightarrow> string list \<Rightarrow> nat \<Rightarrow> world \<Rightarrow> world" where
  "scheduleInterim scope words i w =
     (case setTimeout (SttInterim scope i words) (400 + i * 350) w of
        (h, w1) \<Rightarrow> w1\<lparr>stt_interimTimeout := Some h\<rparr>)"

definition scheduleInterims :: "nat \<Rightarrow> string list \<Rightarrow> world \<Rightarrow> world" where
  "scheduleInterims scope words w = fold (scheduleInterim scope words) [0..<length words] w"

text \<open>
  \<open>startListening\<close> (lines 72-105). \<open>r\<close> is the value of \<open>Math.random()\<close>; were it
  outside \<open>[0, 1)\<close>, \<open>mock\<close> would be \<open>undefined\<close> and \<open>mock.text\<close> a TypeError, thrown after
  the listening flag is set. The result is the exception thrown, if any, and the world
  as the call leaves it.
\<close>

definition stt_startListening :: "real \<Rightarrow> world \<Rightarrow> exn option \<times> world" where
  "stt_startListening r w =
     (if \<not> stt_initialized w then (Some (Exn ''WhisperSTT not initialized''), w)
      else if stt_isListening w then (None, w)
      else
        let w1 = w\<lparr>stt_isListening := True\<rparr>;
            k = \<lfloor>r * real (length MOCK_TRANSCRIPTS)\<rfloor>
        in if k < 0 \<or> int (length MOCK_TRANSCRIPTS) \<le> k
           then (Some (Exn ''TypeError''), w1)
           else
             let m = MOCK_TRANSCRIPTS ! nat k;
                 words = split_sp (mock_text m);
                 scope = next_scope w1;
                 w2 = w1\<lparr>next_scope := Suc scope, partialText := (partialText w1)(scope := '''')\<rparr>;
                 w3 = scheduleInterims scope words w2
             in case setTimeout (SttFinal scope (mock_text m)) (mock_delay m) w3 of
                  (h, w4) \<Rightarrow> (None, w4\<lparr>stt_currentTimeout := Some h\<rparr>))"

text \<open>The interim callback (lines 88-94); \<open>words[wordIndex]\<close> out of range is \<open>undefined\<close>.\<close>

definition stt_interim :: "nat \<Rightarrow> nat \<Rightarrow> string list \<Rightarrow> world \<Rightarrow> world" where
  "stt_interim scope wordIndex words w =
     (if \<not> stt_isListening w then w
      else
        let word = (if wordIndex < length words then words ! wordIndex else ''undefined'');
            txt = partialText w scope @ (if wordIndex > 0 then '' '' else '''') @ word;
            w1 = w\<lparr>partialText := (partialText w)(scope := txt)\<rparr>
        in stt_callback scope txt (interimConfidence wordIndex words) False w1)"

text \<open>The final callback (lines 98-104); \<open>r\<close> is the value of \<open>Math.random()\<close>.\<close>

definition stt_final :: "nat \<Rightarrow> string \<Rightarrow> real \<Rightarrow> world \<Rightarrow> world" where
  "stt_final scope txt r w =
     (if \<not> stt_isListening w then w
      else (stt_callback scope txt (finalConfidence r) True w)\<lparr>stt_isListening := False\<rparr>)"

definition stt_stopListening :: "world \<Rightarrow> world" where
  "stt_stopListening w =
     (let w1 = w\<lparr>stt_isListening := False\<rparr>;
          w2 = clearTimeout (stt_currentTimeout w1) w1
      in clearTimeout (stt_interimTimeout w2) w2)"

definition stt_destroy :: "world \<Rightarrow> world" where
  "stt_destroy w = (stt_stopListening w)\<lparr>stt_initialized := False\<rparr>"

section \<open>The synthesis engine stub (class PiperTTS)\<close>

definition tts_callback :: "tts_status \<Rightarrow> world \<Rightarrow> world" where
  "tts_callback status w =
     (if tts_onStatus w then onStatus_handler status (emit (TtsStatus status) w) else w)"

definition tts_initialize :: "world \<Rightarrow> world" where
  "tts_initialize w = w\<lparr>tts_initialized := True\<rparr>"

definition tts_stop :: "world \<Rightarrow> world" where
  "tts_stop w =
     (let w1 = clearTimeout (tts_currentTimeout w) w;
          w2 = w1\<lparr>tts_isSpeaking := False\<rparr>
      in tts_callback Finished w2)"

text \<open>
  \<open>speak\<close> (lines 156-180) up to the point where it returns its promise; the promise
  is resolved by the \<open>TtsFinish\<close> timer and by nothing else.
\<close>

definition tts_speak :: "bool \<Rightarrow> string \<Rightarrow> world \<Rightarrow> exn option \<times> world" where
  "tts_speak awaited txt w =
     (if \<not> tts_initialized w then (Some (Exn ''PiperTTS not initialized''), w)
      else
        let w1 = (if tts_isSpeaking w then tts_stop w else w);
            w2 = w1\<lparr>tts_isSpeaking := True\<rparr>;
            w3 = tts_callback Started w2
        in case setTimeout (TtsFinish awaited) (nat \<lfloor>cappedDuration txt\<rfloor>) w3 of
             (h, w4) \<Rightarrow> (None, w4\<lparr>tts_currentTimeout := Some h\<rparr>))"

text \<open>The timer callback of \<open>speak\<close> (lines 173-178), without the \<open>resolve()\<close>.\<close>

definition tts_finish :: "world \<Rightarrow> world" where
  "tts_finish w = tts_callback Finished (w\<lparr>tts_isSpeaking := False\<rparr>)"

definition tts_destroy :: "world \<Rightarrow> world" where
  "tts_destroy w = (tts_stop w)\<lparr>tts_initialized := False\<rparr>"

section \<open>The activity detector stub (class VoiceActivityDetector)\<close>

definition vad_callback :: "bool \<Rightarrow> world \<Rightarrow> world" where
  "vad_callback isSpeaking w =
     (if vad_onVAD w then onVAD_handler isSpeaking (emit (VadSignal isSpeaking) w) else w)"

definition vad_initialize :: "world \<Rightarrow> world" where
  "vad_initialize w = w\<lparr>vad_initialized := True\<rparr>"

definition vad_start :: "world \<Rightarrow> exn option \<times> world" where
  "vad_start w =
     (if \<not> vad_initialized w then (Some (Exn ''VAD not initialized''), w)
      else
        let w1 = w\<lparr>vad_isActive := True\<rparr>;
            scope = next_scope w1;
            w2 = w1\<lparr>next_scope := Suc scope, speechDetected := (speechDetected w1)(scope := False)\<rparr>
        in case setInterval (VadPoll scope) 500 w2 of
             (h, w3) \<Rightarrow> (None, w3\<lparr>vad_simulationInterval := Some h\<rparr>))"

text \<open>The interval callback (lines 236-244).\<close>

definition vad_poll :: "nat \<Rightarrow> world \<Rightarrow> world" where
  "vad_poll scope w =
     (if \<not> vad_isActive w then w
      else if \<not> speechDetected w scope
      then vad_callback True (w\<lparr>speechDetected := (speechDetected w)(scope := True)\<rparr>)
      else w)"

definition vad_triggerSilence :: "world \<Rightarrow> world" where
  "vad_triggerSilence w = vad_callback False w"

definition vad_stop :: "world \<Rightarrow> world" where
  "vad_stop w =
     (let w1 = w\<lparr>vad_isActive := False\<rparr>
      in clearTimeout (vad_simulationInterval w1) w1)"

definition vad_destroy :: "world \<Rightarrow> world" where
  "vad_destroy w = (vad_stop w)\<lparr>vad_initialized := False\<rparr>"

section \<open>The coordinator's public methods (class VoiceService)\<close>

datatype engine = STT | TTS | VAD

text \<open>
  \<open>initialize\<close> (lines 96-170). The \<open>initialize\<close> methods of the stubs never throw; the
  \<open>catch\<close> clause is written for engines that do. The parameter \<open>fault\<close> names the
  engine whose \<open>initialize\<close> throws, with the exception, and is \<open>None\<close> for the stubs as
  they are. The result is the returned boolean and the world.
\<close>

definition throws :: "engine \<Rightarrow> (engine \<times> exn) option \<Rightarrow> exn option" where
  "throws en fault =
     (case fault of None \<Rightarrow> None | Some (en', e) \<Rightarrow> if en' = en then Some e else None)"

definition initialize_catch :: "exn \<Rightarrow> world \<Rightarrow> bool \<times> world" where
  "initialize_catch e w =
     (case e of Exn msg \<Rightarrow>
        (False, updateState Error (addThought (''Voice pipeline init failed: '' @ msg) T_error w)))"

definition initialize :: "(engine \<times> exn) option \<Rightarrow> world \<Rightarrow> bool \<times> world" where
  "initialize fault w =
     (let w1 = addThought ''Initializing voice pipeline...'' T_processing w;
          w2 = addThought ''Loading STT model: Whisper Tiny English'' T_processing w1
      in case throws STT fault of Some e \<Rightarrow> initialize_catch e w2 | None \<Rightarrow>
        let w3 = addThought ''Whisper STT engine ready'' T_success (stt_initialize w2);
            w4 = addThought ''Loading TTS model: Piper Lessac Medium'' T_processing w3
        in case throws TTS fault of Some e \<Rightarrow> initialize_catch e w4 | None \<Rightarrow>
          let w5 = addThought ''Piper TTS engine ready'' T_success (tts_initialize w4);
              w6 = addThought ''Initializing Voice Activity Detection...'' T_processing w5
          in case throws VAD fault of Some e \<Rightarrow> initialize_catch e w6 | None \<Rightarrow>
            let w7 = addThought ''VAD module ready'' T_success (vad_initialize w6);
                w8 = w7\<lparr>stt_onTranscript := True, tts_onStatus := True, vad_onVAD := True\<rparr>;
                w9 = w8\<lparr>isInitialized := True\<rparr>;
                w10 = addThought ''Voice pipeline fully initialized'' T_success w9
            in (True, updateState Idle w10))"

text \<open>The \<open>try\<close> block of \<open>startListening\<close> (lines 190-208): the exception thrown, if any.\<close>

definition startListening_try :: "real \<Rightarrow> world \<Rightarrow> exn option \<times> world" where
  "startListening_try r w =
     (let w1 = updateState Listening w;
          w2 = addThought ''Listening for voice command...'' T_processing w1
      in case (if vadEnabled then vad_start w2 else (None, w2)) of
           (Some e, w3) \<Rightarrow> (Some e, w3)
         | (None, w3) \<Rightarrow>
             (case stt_startListening r w3 of
                (Some e, w4) \<Rightarrow> (Some e, w4)
              | (None, w4) \<Rightarrow>
                  (case setTimeout RecordingTimeout maxRecordingMs w4 of
                     (h, w5) \<Rightarrow> (None, w5\<lparr>recordingTimeout := Some h\<rparr>))))"

text \<open>The \<open>catch\<close> clause of \<open>startListening\<close> (lines 209-213).\<close>

definition startListening_catch :: "exn \<Rightarrow> world \<Rightarrow> world" where
  "startListening_catch e w =
     (case e of Exn msg \<Rightarrow> updateState Error (addThought (''Listening failed: '' @ msg) T_error w))"

definition startListening :: "real \<Rightarrow> world \<Rightarrow> world" where
  "startListening r w =
     (if \<not> isInitialized w
      then addThought ''Cannot listen: voice pipeline not initialized'' T_error w
      else if currentState w = Listening
      then addThought ''Already listening...'' T_warning w
      else
        let w1 = (if tts_isSpeaking w then tts_stop w else w)
        in case startListening_try r w1 of
             (None, w2) \<Rightarrow> w2
           | (Some e, w2) \<Rightarrow> startListening_catch e w2)"

text \<open>
  \<open>stopListening\<close> (lines 216-230); the two engine methods in its \<open>try\<close> block never
  throw, so its \<open>catch\<close> clause has no case here.
\<close>

definition stopListening :: "world \<Rightarrow> world" where
  "stopListening w =
     (let w1 = clearTimeout (recordingTimeout w) w;
          w2 = stt_stopListening w1;
          w3 = vad_stop w2
      in if currentState w3 = Listening then updateState Idle w3 else w3)"

text \<open>The \<open>finally\<close> clause of \<open>speakAnalysis\<close> (lines 253-257).\<close>

definition speakAnalysis_finally :: "world \<Rightarrow> world" where
  "speakAnalysis_finally w = (if currentState w = Speaking then updateState Idle w else w)"

text \<open>
  \<open>speakAnalysis\<close> (lines 234-258) up to its \<open>await this.tts.speak(text)\<close>. When
  \<open>speak\<close> throws, the \<open>catch\<close> and \<open>finally\<close> clauses run at once; otherwise the method
  is suspended until the timer of \<open>speak\<close> resolves the promise, and
  \<open>speakAnalysis_resume\<close> is the rest of it (line 249 and the \<open>finally\<close> clause).
\<close>

definition speakAnalysis :: "string \<Rightarrow> world \<Rightarrow> world" where
  "speakAnalysis txt w =
     (if \<not> isInitialized w
      then addThought ''Cannot speak: voice pipeline not initialized'' T_error w
      else
        let w1 = (if stt_isListening w then stopListening w else w);
            w2 = updateState Speaking w1;
            w3 = addThought ''Speaking analysis results...'' T_processing w2
        in case tts_speak True txt w3 of
             (None, w4) \<Rightarrow> w4
           | (Some (Exn msg), w4) \<Rightarrow>
               speakAnalysis_finally (addThought (''TTS failed: '' @ msg) T_error w4))"

definition speakAnalysis_resume :: "world \<Rightarrow> world" where
  "speakAnalysis_resume w = speakAnalysis_finally (addThought ''Finished speaking'' T_success w)"

definition stopSpeaking :: "world \<Rightarrow> world" where
  "stopSpeaking w =
     (let w1 = tts_stop w
      in if currentState w1 = Speaking then updateState Idle w1 else w1)"

definition destroy :: "world \<Rightarrow> world" where
  "destroy w =
     (let w1 = stt_destroy w;
          w2 = tts_destroy w1;
          w3 = vad_destroy w2
      in updateState Idle (w3\<lparr>isInitialized := False\<rparr>))"

text \<open>The safety timeout armed by \<open>startListening\<close> (lines 203-208).\<close>

definition recordingTimeout_fired :: "world \<Rightarrow> world" where
  "recordingTimeout_fired w =
     (if currentState w = Listening
      then stopListening (addThought ''Max recording duration reached'' T_warning w)
      else w)"

text \<open>The timeout armed by \<open>parseAndDispatchCommand\<close> (lines 303-307).\<close>

definition processingDone :: "world \<Rightarrow> world" where
  "processingDone w = (if currentState w = Processing then updateState Idle w else w)"

section \<open>The event loop\<close>

text \<open>
  The timer that fires next: the earliest due, and among timers due together the one
  set first. The invariants proved below use only that no pending timer is due earlier.
\<close>

fun next_timer :: "timer list \<Rightarrow> timer option" where
  "next_timer [] = None"
| "next_timer (t # ts) =
     (case next_timer ts of
        None \<Rightarrow> Some t
      | Some u \<Rightarrow> if due u < due t then Some u else Some t)"

text \<open>
  Running a closure; \<open>r\<close> is the value \<open>Math.random()\<close> returns if the closure calls it.
  The continuation of an awaiting \<open>speakAnalysis\<close> runs right after the timer callback
  that resolves its promise.
\<close>

fun run_callback :: "callback \<Rightarrow> real \<Rightarrow> world \<Rightarrow> world" where
  "run_callback (SttInterim scope wordIndex words) r w = stt_interim scope wordIndex words w"
| "run_callback (SttFinal scope txt) r w = stt_final scope txt r w"
| "run_callback (TtsFinish awaited) r w =
     (let w1 = tts_finish w in if awaited then speakAnalysis_resume w1 else w1)"
| "run_callback (VadPoll scope) r w = vad_poll scope w"
| "run_callback RecordingTimeout r w = recordingTimeout_fired w"
| "run_callback ProcessingDone r w = processingDone w"

text \<open>
  One turn of the loop: the clock moves to the next timer, a timeout leaves the
  pending list and an interval is set again one period later, and the callback runs.
\<close>

definition rearm :: "timer \<Rightarrow> timer list \<Rightarrow> timer list" where
  "rearm t ts =
     (case period t of
        None \<Rightarrow> filter (\<lambda>u. handle u \<noteq> handle t) ts
      | Some p \<Rightarrow>
          map (\<lambda>u. if handle u = handle t then Timer (handle u) (due u + p) (period u) (callback u)
                    else u) ts)"

definition tick :: "real \<Rightarrow> world \<Rightarrow> world" where
  "tick r w =
     (case next_timer (timers w) of
        None \<Rightarrow> w
      | Some t \<Rightarrow>
          run_callback (callback t) r
            (w\<lparr>now := max (now w) (due t), timers := rearm t (timers w)\<rparr>))"

text \<open>Time passing with no timer firing: only up to the next timer.\<close>

definition wait :: "nat \<Rightarrow> world \<Rightarrow> world" where
  "wait d w = (if list_all (\<lambda>t. now w + d \<le> due t) (timers w) then w\<lparr>now := now w + d\<rparr> else w)"

text \<open>
  A direct call of a public method of an engine singleton (the classes are exported, so
  any module can make one). An exception the method throws goes to that caller; the
  world is as the method leaves it.
\<close>

datatype engine_call =
    SttInitialize
  | SttStartListening real
  | SttStopListening
  | SttDestroy
  | TtsInitialize
  | TtsSpeak string
  | TtsStop
  | TtsDestroy
  | VadInitialize
  | VadStart
  | VadStop
  | VadDestroy

fun call :: "engine_call \<Rightarrow> world \<Rightarrow> world" where
  "call SttInitialize w = stt_initialize w"
| "call (SttStartListening r) w = snd (stt_startListening r w)"
| "call SttStopListening w = stt_stopListening w"
| "call SttDestroy w = stt_destroy w"
| "call TtsInitialize w = tts_initialize w"
| "call (TtsSpeak txt) w = snd (tts_speak False txt w)"
| "call TtsStop w = tts_stop w"
| "call TtsDestroy w = tts_destroy w"
| "call VadInitialize w = vad_initialize w"
| "call VadStart w = snd (vad_start w)"
| "call VadStop w = vad_stop w"
| "call VadDestroy w = vad_destroy w"

text \<open>
  What can happen to the pipeline: a call of a public method of the coordinator, a
  call of the detector's \<open>triggerSilence\<close>, a direct call of another method of an engine,
  a turn of the event loop, or time passing. Each call runs to its end (or to the
  \<open>await\<close> of \<open>speak\<close>) before the next thing happens: its other \<open>await\<close>s are on promises
  that are already settled. Subscribers and the caller of \<open>speak\<close> only observe: they do
  not call back into the pipeline from inside a callback.
\<close>

datatype cmd =
    Initialize "(engine \<times> exn) option"
  | StartListening real
  | StopListening
  | SpeakAnalysis string
  | StopSpeaking
  | Destroy
  | TriggerSilence
  | Direct engine_call
  | Tick real
  | Wait nat

fun exec :: "cmd \<Rightarrow> world \<Rightarrow> world" where
  "exec (Initialize fault) w = snd (initialize fault w)"
| "exec (StartListening r) w = startListening r w"
| "exec StopListening w = stopListening w"
| "exec (SpeakAnalysis txt) w = speakAnalysis txt w"
| "exec StopSpeaking w = stopSpeaking w"
| "exec Destroy w = destroy w"
| "exec TriggerSilence w = vad_triggerSilence w"
| "exec (Direct e) w = call e w"
| "exec (Tick r) w = tick r w"
| "exec (Wait d) w = wait d w"

text \<open>\<open>Math.random()\<close> returns a number in \<open>[0, 1)\<close>.\<close>

definition valid_random :: "real \<Rightarrow> bool" where
  "valid_random r = (0 \<le> r \<and> r < 1)"

fun valid_cmd :: "cmd \<Rightarrow> bool" where
  "valid_cmd (StartListening r) = valid_random r"
| "valid_cmd (Direct (SttStartListening r)) = valid_random r"
| "valid_cmd (Tick r) = valid_random r"
| "valid_cmd _ = True"

definition run :: "cmd list \<Rightarrow> world \<Rightarrow> world" where
  "run cs w = fold exec cs w"

inductive reachable :: "world \<Rightarrow> bool" where
  reachable_init: "reachable world0"
| reachable_step: "reachable w \<Longrightarrow> valid_cmd c \<Longrightarrow> reachable (exec c w)"

text \<open>The events a step adds to those already published.\<close>

definition emitted :: "world \<Rightarrow> world \<Rightarrow> event list" where
  "emitted w w' = drop (length (events w)) (events w')"

text \<open>The pipeline after a call of \<open>initialize\<close> on the fresh singletons, with the stubs as they are.\<close>

definition world_ready :: world where
  "world_ready = snd (initialize None world0)"

section \<open>Pending timers and their bookkeeping\<close>

fun is_interim :: "callback \<Rightarrow> bool" where
  "is_interim (SttInterim scope wordIndex words) = True"
| "is_interim _ = False"

fun is_final :: "callback \<Rightarrow> bool" where
  "is_final (SttFinal scope txt) = True"
| "is_final _ = False"

fun is_finish :: "callback \<Rightarrow> bool" where
  "is_finish (TtsFinish awaited) = True"
| "is_finish _ = False"

text \<open>The pending timers whose closure is of a given kind.\<close>

definition pending :: "(callback \<Rightarrow> bool) \<Rightarrow> world \<Rightarrow> timer list" where
  "pending P w = filter (\<lambda>t. P (callback t)) (timers w)"

text \<open>
  The bookkeeping the engines rely on: handles are unique and were all handed out
  already; a pending final callback belongs to a listening speech engine that holds its
  handle in \<open>currentTimeout\<close>; a pending callback of \<open>speak\<close> belongs to a speaking synthesis
  engine that holds its handle; both are timeouts, not intervals; and no pending timer
  is overdue.
\<close>

definition timers_ok :: "world \<Rightarrow> bool" where
  "timers_ok w =
     (distinct (map handle (timers w)) \<and>
      (\<forall>t \<in> set (timers w). handle t < next_handle w) \<and>
      (\<forall>t \<in> set (timers w). is_final (callback t) \<longrightarrow>
          stt_isListening w \<and> stt_currentTimeout w = Some (handle t)) \<and>
      (\<forall>t \<in> set (timers w). is_finish (callback t) \<longrightarrow>
          tts_isSpeaking w \<and> tts_currentTimeout w = Some (handle t)) \<and>
      (\<forall>t \<in> set (timers w). is_final (callback t) \<or> is_finish (callback t) \<longrightarrow>
          period t = None) \<and>
      (\<forall>t \<in> set (timers w). now w \<le> due t))"

text \<open>The timers the loop of \<open>startListening\<close> sets, from handle \<open>h\<close> at time \<open>t\<close>.\<close>

definition interimTimers :: "nat \<Rightarrow> string list \<Rightarrow> nat \<Rightarrow> nat \<Rightarrow> nat \<Rightarrow> timer list" where
  "interimTimers scope words h t n =
     map (\<lambda>i. Timer (h + i) (t + (400 + i * 350)) None (SttInterim scope i words)) [0..<n]"

text \<open>
  Two more concrete pipelines: listening for the first phrase of \<open>MOCK_TRANSCRIPTS\<close>
  (\<open>Math.random()\<close> returning 0), and ready but with the speech engine destroyed by a
  direct call of \<open>WhisperSTT.destroy\<close> on the singleton.
\<close>

definition world_listening :: world where
  "world_listening = startListening 0 world_ready"

definition world_deaf :: world where
  "world_deaf = stt_destroy world_ready"

section \<open>What a step publishes\<close>

text \<open>
  \<open>adds Q w w'\<close>: the events of \<open>w'\<close> are those of \<open>w\<close> followed by events that all
  satisfy \<open>Q\<close>.
\<close>

definition adds :: "(event \<Rightarrow> bool) \<Rightarrow> world \<Rightarrow> world \<Rightarrow> bool" where
  "adds Q w w' =
     (length (events w) \<le> length (events w') \<and>
      take (length (events w)) (events w') = events w \<and>
      list_all Q (emitted w w'))"

text \<open>The calls the speech engine and the detector make to their callbacks.\<close>

fun is_transcript :: "event \<Rightarrow> bool" where
  "is_transcript (SttTranscript scope txt confidence isFinal) = True"
| "is_transcript _ = False"

fun is_signal :: "event \<Rightarrow> bool" where
  "is_signal (VadSignal isSpeaking) = True"
| "is_signal _ = False"

definition published :: "event \<Rightarrow> bool" where
  "published e = (\<not> is_transcript e \<and> \<not> is_signal e)"

section \<open>Utterances\<close>




text \<open>
  The listening pipeline after eight turns of the event loop: the three interim
  callbacks, the detector's polls in between, and the final callback, with
  \<open>Math.random()\<close> returning 0.5 there.
\<close>

definition world_heard :: world where
  "world_heard =
     run [Tick 0, Tick 0, Tick 0, Tick 0, Tick 0, Tick 0, Tick 0, Tick (1/2)] world_listening"

text \<open>
  The listening pipeline stopped after its first interim transcript and started again
  100 ms later, for the last phrase of \<open>MOCK_TRANSCRIPTS\<close>.
\<close>

definition world_restarted :: world where
  "world_restarted =
     run [Tick 0, StopListening, Wait 100, StartListening (9/10)] world_listening"

section \<open>Command parsing\<close>

lemma matchKeyword_none:
  "\<forall>j < length tab. \<not> sublist (fst (tab ! j)) s \<Longrightarrow> matchKeyword s tab = ('''', Unknown)"
proof (induction tab)
  case Nil
  then show ?case by simp
next
  case (Cons e tab)
  obtain k i where e: "e = (k, i)" by (cases e)
  from Cons.prems have "\<not> sublist (fst ((e # tab) ! 0)) s" by blast
  then have nk: "\<not> sublist k s" by (simp add: e)
  have "\<forall>j < length tab. \<not> sublist (fst (tab ! j)) s"
  proof (intro allI impI)
    fix j assume "j < length tab"
    then have "\<not> sublist (fst ((e # tab) ! Suc j)) s" using Cons.prems by (metis length_Cons Suc_less_eq)
    then show "\<not> sublist (fst (tab ! j)) s" by simp
  qed
  then have "matchKeyword s tab = ('''', Unknown)" by (rule Cons.IH)
  then show ?case using nk by (simp add: e str_includes_def)
qed

lemma matchKeyword_first:
  "j < length tab \<Longrightarrow> sublist (fst (tab ! j)) s \<Longrightarrow>
   \<forall>j' < j. \<not> sublist (fst (tab ! j')) s \<Longrightarrow> matchKeyword s tab = tab ! j"
proof (induction tab arbitrary: j)
  case Nil
  then show ?case by simp
next
  case (Cons e tab)
  obtain k i where e: "e = (k, i)" by (cases e)
  show ?case
  proof (cases j)
    case 0
    then show ?thesis using Cons.prems by (simp add: e str_includes_def)
  next
    case (Suc m)
    from Cons.prems(3) Suc have "\<not> sublist (fst ((e # tab) ! 0)) s" by blast
    then have nk: "\<not> sublist k s" by (simp add: e)
    have m: "m < length tab" using Cons.prems(1) Suc by simp
    have hit: "sublist (fst (tab ! m)) s" using Cons.prems(2) Suc by simp
    have "\<forall>j' < m. \<not> sublist (fst (tab ! j')) s"
    proof (intro allI impI)
      fix j' assume "j' < m"
      then have "Suc j' < j" using Suc by simp
      then have "\<not> sublist (fst ((e # tab) ! Suc j')) s" using Cons.prems(3) by blast
      then show "\<not> sublist (fst (tab ! j')) s" by simp
    qed
    then have "matchKeyword s tab = tab ! m" using Cons.IH m hit by blast
    then show ?thesis using nk Suc by (simp add: e str_includes_def)
  qed
qed

text \<open>Trimming cannot hide or create an occurrence of a word that starts and ends with a non-blank.\<close>

lemma sublist_dropWhile:
  assumes "k \<noteq> []" and "\<not> P (hd k)"
  shows "sublist k (dropWhile P s) = sublist k s"
proof
  assume "sublist k (dropWhile P s)"
  moreover have "sublist (dropWhile P s) s"
    by (rule suffix_imp_sublist) (rule suffix_dropWhile)
  ultimately show "sublist k s" by (rule sublist_order.order.trans)
next
  assume "sublist k s"
  then obtain ps ss where s: "s = ps @ k @ ss" by (auto simp: sublist_def)
  have "sublist k (dropWhile P (ps @ k @ ss))"
  proof (induction ps)
    case Nil
    from assms obtain c cs where "k = c # cs" "\<not> P c" by (cases k) auto
    then show ?case by simp
  next
    case (Cons p ps)
    show ?case
    proof (cases "P p")
      case True
      then show ?thesis using Cons.IH by simp
    next
      case False
      have "sublist k (p # ps @ k @ ss)" by (metis append_Cons sublist_appendI)
      then show ?thesis using False by simp
    qed
  qed
  then show "sublist k (dropWhile P s)" by (simp add: s)
qed

lemma sublist_trim:
  assumes "k \<noteq> []" and "\<not> isWhiteSpace (hd k)" and "\<not> isWhiteSpace (last k)"
  shows "sublist k (trim s) = sublist k s"
proof -
  have rk: "rev k \<noteq> []" "\<not> isWhiteSpace (hd (rev k))"
    using assms by (simp_all add: hd_rev)
  have "sublist k (trim s) = sublist (rev k) (dropWhile isWhiteSpace (rev (dropWhile isWhiteSpace s)))"
    unfolding trim_def by (metis sublist_rev rev_rev_ident)
  also have "\<dots> = sublist (rev k) (rev (dropWhile isWhiteSpace s))"
    using rk by (rule sublist_dropWhile)
  also have "\<dots> = sublist k (dropWhile isWhiteSpace s)" by (rule sublist_rev)
  also have "\<dots> = sublist k s" using assms(1,2) by (rule sublist_dropWhile)
  finally show ?thesis .
qed

lemma keywords_solid:
  "\<forall>e \<in> set COMMAND_KEYWORDS. fst e \<noteq> [] \<and>
      \<not> isWhiteSpace (hd (fst e)) \<and> \<not> isWhiteSpace (last (fst e))"
  unfolding COMMAND_KEYWORDS_def isWhiteSpace_def by simp

lemma keyword_in_trimmed:
  assumes "j < length COMMAND_KEYWORDS"
  shows "sublist (fst (COMMAND_KEYWORDS ! j)) (trim s) = sublist (fst (COMMAND_KEYWORDS ! j)) s"
proof -
  have "COMMAND_KEYWORDS ! j \<in> set COMMAND_KEYWORDS" using assms by (rule nth_mem)
  then show ?thesis using keywords_solid by (intro sublist_trim) blast+
qed

text \<open>
  C4. For every transcript, the parse is the first entry of the keyword table, in table
  order, whose keyword occurs in the lower-cased transcript, and has intent \<open>Unknown\<close>
  (with the empty keyword) when no keyword occurs; "please scan for vulnerabilities"
  parses to \<open>Scan\<close> and "what's the weather" to \<open>Unknown\<close>.
\<close>

theorem parseCommand_first_match:
  "(\<forall>j < length COMMAND_KEYWORDS.
      sublist (fst (COMMAND_KEYWORDS ! j)) (toLowerCase t) \<and>
      (\<forall>j' < j. \<not> sublist (fst (COMMAND_KEYWORDS ! j')) (toLowerCase t))
      \<longrightarrow> parseCommand t = COMMAND_KEYWORDS ! j) \<and>
   ((\<forall>j < length COMMAND_KEYWORDS. \<not> sublist (fst (COMMAND_KEYWORDS ! j)) (toLowerCase t))
      \<longrightarrow> parseCommand t = ('''', Unknown)) \<and>
   snd (parseCommand ''please scan for vulnerabilities'') = Scan \<and>
   snd (parseCommand ''what's the weather'') = Unknown"
proof (intro conjI allI impI)
  fix j
  assume j: "j < length COMMAND_KEYWORDS"
    and hit: "sublist (fst (COMMAND_KEYWORDS ! j)) (toLowerCase t) \<and>
      (\<forall>j' < j. \<not> sublist (fst (COMMAND_KEYWORDS ! j')) (toLowerCase t))"
  have "sublist (fst (COMMAND_KEYWORDS ! j)) (trim (toLowerCase t))"
    using hit j by (simp add: keyword_in_trimmed)
  moreover have "\<forall>j' < j. \<not> sublist (fst (COMMAND_KEYWORDS ! j')) (trim (toLowerCase t))"
    using hit j by (simp add: keyword_in_trimmed)
  ultimately show "parseCommand t = COMMAND_KEYWORDS ! j"
    unfolding parseCommand_def using j by (intro matchKeyword_first)
next
  assume "\<forall>j < length COMMAND_KEYWORDS. \<not> sublist (fst (COMMAND_KEYWORDS ! j)) (toLowerCase t)"
  then have "\<forall>j < length COMMAND_KEYWORDS. \<not> sublist (fst (COMMAND_KEYWORDS ! j)) (trim (toLowerCase t))"
    by (simp add: keyword_in_trimmed)
  then show "parseCommand t = ('''', Unknown)"
    unfolding parseCommand_def by (rule matchKeyword_none)
next
  show "snd (parseCommand ''please scan for vulnerabilities'') = Scan" by code_simp
next
  show "snd (parseCommand ''what's the weather'') = Unknown" by code_simp
qed

theorem parseCommand_first_match_witness:
  "sublist ''stop'' (toLowerCase ''STOP the Scan'') \<and>
   parseCommand ''STOP the Scan'' = (''scan'', Scan) \<and>
   parseCommand ''Good morning'' = ('''', Unknown)"
proof -
  have len: "length COMMAND_KEYWORDS = 12" by (simp add: COMMAND_KEYWORDS_def)
  have hit: "sublist (fst (COMMAND_KEYWORDS ! 1)) (toLowerCase ''STOP the Scan'') \<and>
      (\<forall>j' < 1. \<not> sublist (fst (COMMAND_KEYWORDS ! j')) (toLowerCase ''STOP the Scan''))"
    by code_simp
  have miss: "\<forall>j < 12. \<not> sublist (fst (COMMAND_KEYWORDS ! j)) (toLowerCase ''Good morning'')"
    by code_simp
  have "parseCommand ''STOP the Scan'' = COMMAND_KEYWORDS ! 1"
    using parseCommand_first_match [of "''STOP the Scan''"] hit len by simp
  moreover have "parseCommand ''Good morning'' = ('''', Unknown)"
    using parseCommand_first_match [of "''Good morning''"] miss len by simp
  moreover have "sublist ''stop'' (toLowerCase ''STOP the Scan'')" by code_simp
  ultimately show ?thesis by (simp add: COMMAND_KEYWORDS_def)
qed

section \<open>Timers: what every operation preserves\<close>

lemmas coordinator_defs =
  addThought_def updateState_def emit_def onStatus_handler_def onVAD_handler_def
  onTranscript_handler_def parseAndDispatchCommand_def

lemmas engine_defs = stt_callback_def tts_callback_def vad_callback_def setTimeout_def setInterval_def Let_def

lemma fold_scheduleInterim:
  "fold (scheduleInterim scope words) [0..<n] w =
     w\<lparr>next_handle := next_handle w + n,
       timers := timers w @ interimTimers scope words (next_handle w) (now w) n,
       stt_interimTimeout := (if n = 0 then stt_interimTimeout w else Some (next_handle w + n - 1))\<rparr>"
proof (induction n)
  case 0
  show ?case by (simp add: interimTimers_def)
next
  case (Suc n)
  have "fold (scheduleInterim scope words) [0..<Suc n] w =
          scheduleInterim scope words n (fold (scheduleInterim scope words) [0..<n] w)"
    by simp
  also have "\<dots> = scheduleInterim scope words n
      (w\<lparr>next_handle := next_handle w + n,
         timers := timers w @ interimTimers scope words (next_handle w) (now w) n,
         stt_interimTimeout := (if n = 0 then stt_interimTimeout w else Some (next_handle w + n - 1))\<rparr>)"
    by (simp only: Suc.IH)
  also have "\<dots> = w\<lparr>next_handle := next_handle w + Suc n,
       timers := timers w @ interimTimers scope words (next_handle w) (now w) (Suc n),
       stt_interimTimeout :=
         (if Suc n = 0 then stt_interimTimeout w else Some (next_handle w + Suc n - 1))\<rparr>"
    by (simp add: scheduleInterim_def setTimeout_def interimTimers_def)
  finally show ?case .
qed

lemma scheduleInterims_eq:
  "scheduleInterims scope words w =
     w\<lparr>next_handle := next_handle w + length words,
       timers := timers w @ interimTimers scope words (next_handle w) (now w) (length words),
       stt_interimTimeout :=
         (if words = [] then stt_interimTimeout w else Some (next_handle w + length words - 1))\<rparr>"
  by (simp add: scheduleInterims_def fold_scheduleInterim)

lemma interimTimers_facts:
  "map handle (interimTimers scope words h t n) = [h..<h + n]"
  "t' \<in> set (interimTimers scope words h t n) \<Longrightarrow> \<not> is_final (callback t') \<and> \<not> is_finish (callback t')"
proof -
  have "map handle (interimTimers scope words h t n) = map (\<lambda>i. i + h) [0..<n]"
    by (simp add: interimTimers_def comp_def add.commute)
  then show "map handle (interimTimers scope words h t n) = [h..<h + n]"
    by (simp add: map_add_upt add.commute)
next
  assume "t' \<in> set (interimTimers scope words h t n)"
  then show "\<not> is_final (callback t') \<and> \<not> is_finish (callback t')"
    by (auto simp: interimTimers_def)
qed

lemma timers_ok_tts_stop: "timers_ok w \<Longrightarrow> timers_ok (tts_stop w)"
  by (cases "tts_currentTimeout w")
    (auto simp: timers_ok_def tts_stop_def coordinator_defs engine_defs distinct_map_filter)

lemma timers_ok_stt_stopListening: "timers_ok w \<Longrightarrow> timers_ok (stt_stopListening w)"
  by (cases "stt_currentTimeout w"; cases "stt_interimTimeout w")
    (auto simp: timers_ok_def stt_stopListening_def distinct_map_filter)

lemma timers_ok_vad_stop: "timers_ok w \<Longrightarrow> timers_ok (vad_stop w)"
  by (cases "vad_simulationInterval w")
    (auto simp: timers_ok_def vad_stop_def distinct_map_filter)

lemma timers_ok_vad_start: "timers_ok w \<Longrightarrow> timers_ok (snd (vad_start w))"
  by (auto simp: timers_ok_def vad_start_def engine_defs Let_def)

lemma timers_ok_tts_speak: "timers_ok w \<Longrightarrow> timers_ok (snd (tts_speak a txt w))"
  by (cases "tts_currentTimeout w")
    (auto simp: timers_ok_def tts_speak_def tts_stop_def coordinator_defs engine_defs Let_def distinct_map_filter)


lemma interimTimers_handle:
  "t' \<in> set (interimTimers scope words h t n) \<Longrightarrow> h \<le> handle t' \<and> handle t' < h + n"
  by (auto simp: interimTimers_def)

lemma interimTimers_period:
  "t' \<in> set (interimTimers scope words h t n) \<Longrightarrow> period t' = None"
  by (auto simp: interimTimers_def)

lemma interimTimers_due:
  "t' \<in> set (interimTimers scope words h t n) \<Longrightarrow> t \<le> due t'"
  by (auto simp: interimTimers_def)

lemma timers_ok_stt_startListening: "timers_ok w \<Longrightarrow> timers_ok (snd (stt_startListening r w))"
proof -
  assume ok: "timers_ok w"
  let ?k = "\<lfloor>r * real (length MOCK_TRANSCRIPTS)\<rfloor>"
  let ?m = "MOCK_TRANSCRIPTS ! nat ?k"
  let ?ws = "split_sp (mock_text ?m)"
  let ?w' = "snd (stt_startListening r w)"
  show ?thesis
  proof (cases "stt_initialized w \<and> \<not> stt_isListening w")
    case False
    then have "?w' = w" by (auto simp: stt_startListening_def)
    then show ?thesis using ok by simp
  next
    case True
    show ?thesis
    proof (cases "?k < 0 \<or> int (length MOCK_TRANSCRIPTS) \<le> ?k")
      case bad: True
      then have "?w' = w\<lparr>stt_isListening := True\<rparr>"
        using True by (simp add: stt_startListening_def Let_def)
      then show ?thesis using ok by (auto simp: timers_ok_def)
    next
      case good: False
      let ?new = "interimTimers (next_scope w) ?ws (next_handle w) (now w) (length ?ws)"
      let ?fin = "Timer (next_handle w + length ?ws) (now w + mock_delay ?m) None
                    (SttFinal (next_scope w) (mock_text ?m))"
      have tm: "timers ?w' = timers w @ ?new @ [?fin]"
        and nh: "next_handle ?w' = Suc (next_handle w + length ?ws)"
        and fl: "stt_isListening ?w'" "stt_currentTimeout ?w' = Some (next_handle w + length ?ws)"
          "tts_isSpeaking ?w' = tts_isSpeaking w" "tts_currentTimeout ?w' = tts_currentTimeout w"
          "now ?w' = now w"
        using True good
        by (simp_all add: stt_startListening_def scheduleInterims_eq Let_def setTimeout_def)
      have nofinal: "\<forall>t \<in> set (timers w). \<not> is_final (callback t)"
        using ok True by (auto simp: timers_ok_def)
      have old: "\<forall>t \<in> set (timers w). handle t < next_handle w"
        using ok by (simp add: timers_ok_def)
      have d: "distinct (map handle (timers ?w'))"
        using ok old by (auto simp: tm timers_ok_def interimTimers_facts(1))
      have h: "\<forall>t \<in> set (timers ?w'). handle t < next_handle ?w'"
        using old by (auto simp: tm nh dest: interimTimers_handle)
      have f: "\<forall>t \<in> set (timers ?w'). is_final (callback t) \<longrightarrow>
          stt_isListening ?w' \<and> stt_currentTimeout ?w' = Some (handle t)"
        using nofinal by (auto simp: tm fl dest: interimTimers_facts(2))
      have s: "\<forall>t \<in> set (timers ?w'). is_finish (callback t) \<longrightarrow>
          tts_isSpeaking ?w' \<and> tts_currentTimeout ?w' = Some (handle t)"
        using ok by (auto simp: tm fl timers_ok_def dest: interimTimers_facts(2))
      have p: "\<forall>t \<in> set (timers ?w'). is_final (callback t) \<or> is_finish (callback t) \<longrightarrow>
          period t = None"
        using ok by (auto simp: tm timers_ok_def dest: interimTimers_period)
      have c: "\<forall>t \<in> set (timers ?w'). now ?w' \<le> due t"
        using ok by (auto simp: tm fl timers_ok_def dest: interimTimers_due)
      show ?thesis unfolding timers_ok_def using d h f s p c by blast
    qed
  qed
qed

lemma timers_ok_parseAndDispatchCommand:
  "timers_ok w \<Longrightarrow> timers_ok (parseAndDispatchCommand txt c w)"
  by (auto simp: timers_ok_def coordinator_defs engine_defs split: prod.splits)

lemma timers_ok_stt_interim: "timers_ok w \<Longrightarrow> timers_ok (stt_interim scope i words w)"
  by (auto simp: timers_ok_def stt_interim_def coordinator_defs engine_defs)

lemma timers_ok_stt_final:
  "timers_ok w \<Longrightarrow> pending is_final w = [] \<Longrightarrow> timers_ok (stt_final scope txt r w)"
  by (auto simp: timers_ok_def pending_def filter_empty_conv stt_final_def coordinator_defs
        engine_defs split: prod.splits)

lemma timers_ok_tts_finish:
  "timers_ok w \<Longrightarrow> pending is_finish w = [] \<Longrightarrow> timers_ok (tts_finish w)"
  by (auto simp: timers_ok_def pending_def filter_empty_conv tts_finish_def coordinator_defs
        engine_defs)

lemma timers_ok_silent:
  "timers_ok w \<Longrightarrow> timers_ok (emit e w)"
  "timers_ok w \<Longrightarrow> timers_ok (addThought m ty w)"
  "timers_ok w \<Longrightarrow> timers_ok (updateState st w)"
  "timers_ok w \<Longrightarrow> timers_ok (vad_callback b w)"
  "timers_ok w \<Longrightarrow> timers_ok (w\<lparr>isInitialized := b\<rparr>)"
  "timers_ok w \<Longrightarrow> timers_ok (w\<lparr>stt_initialized := b\<rparr>)"
  "timers_ok w \<Longrightarrow> timers_ok (w\<lparr>tts_initialized := b\<rparr>)"
  "timers_ok w \<Longrightarrow> timers_ok (w\<lparr>vad_initialized := b\<rparr>)"
  by (auto simp: timers_ok_def coordinator_defs engine_defs)

lemma timers_ok_clearTimeout: "timers_ok w \<Longrightarrow> timers_ok (clearTimeout h w)"
  by (cases h) (auto simp: timers_ok_def distinct_map_filter)

lemma timers_ok_vad_poll: "timers_ok w \<Longrightarrow> timers_ok (vad_poll scope w)"
  by (auto simp: timers_ok_def vad_poll_def coordinator_defs engine_defs)

lemma timers_ok_stopListening: "timers_ok w \<Longrightarrow> timers_ok (stopListening w)"
  by (simp add: stopListening_def Let_def timers_ok_silent timers_ok_clearTimeout
        timers_ok_stt_stopListening timers_ok_vad_stop)

lemma timers_ok_speakAnalysis_finally: "timers_ok w \<Longrightarrow> timers_ok (speakAnalysis_finally w)"
  by (simp add: speakAnalysis_finally_def timers_ok_silent)

lemma timers_ok_recording: "timers_ok w \<Longrightarrow> timers_ok (snd (setTimeout RecordingTimeout d w))"
  by (auto simp: timers_ok_def setTimeout_def)

lemma timers_ok_startListening_try: "timers_ok w \<Longrightarrow> timers_ok (snd (startListening_try r w))"
proof -
  assume ok: "timers_ok w"
  let ?w2 = "addThought ''Listening for voice command...'' T_processing (updateState Listening w)"
  have w2: "timers_ok ?w2" using ok by (simp add: timers_ok_silent)
  have w3: "timers_ok (snd (vad_start ?w2))" using w2 by (rule timers_ok_vad_start)
  have w4: "timers_ok (snd (stt_startListening r (snd (vad_start ?w2))))"
    using w3 by (rule timers_ok_stt_startListening)
  have w5: "timers_ok (snd (setTimeout RecordingTimeout maxRecordingMs
              (snd (stt_startListening r (snd (vad_start ?w2))))))"
    using w4 by (rule timers_ok_recording)
  have w5': "timers_ok (snd (setTimeout RecordingTimeout maxRecordingMs
              (snd (stt_startListening r (snd (vad_start ?w2))))) \<lparr>recordingTimeout := h\<rparr>)" for h
    using w5 by (simp add: timers_ok_def)
  show ?thesis
    using w3 w4 w5'
    by (auto simp: startListening_try_def vadEnabled_def Let_def split: prod.splits option.splits)
qed

lemma timers_ok_startListening: "timers_ok w \<Longrightarrow> timers_ok (startListening r w)"
proof -
  assume ok: "timers_ok w"
  let ?w1 = "if tts_isSpeaking w then tts_stop w else w"
  have w1: "timers_ok ?w1" using ok by (simp add: timers_ok_tts_stop)
  have w2: "timers_ok (snd (startListening_try r ?w1))"
    using w1 by (rule timers_ok_startListening_try)
  have "timers_ok (startListening_catch e (snd (startListening_try r ?w1)))" for e
    using w2 by (cases e) (simp add: startListening_catch_def timers_ok_silent)
  then show ?thesis
    using ok w2
    by (auto simp: startListening_def Let_def timers_ok_silent split: prod.splits option.splits)
qed

lemma timers_ok_speakAnalysis: "timers_ok w \<Longrightarrow> timers_ok (speakAnalysis txt w)"
proof -
  assume ok: "timers_ok w"
  let ?w1 = "if stt_isListening w then stopListening w else w"
  let ?w3 = "addThought ''Speaking analysis results...'' T_processing (updateState Speaking ?w1)"
  have w3: "timers_ok ?w3" using ok by (simp add: timers_ok_stopListening timers_ok_silent)
  have w4: "timers_ok (snd (tts_speak True txt ?w3))" using w3 by (rule timers_ok_tts_speak)
  show ?thesis
    using ok w4
    by (auto simp: speakAnalysis_def Let_def timers_ok_silent timers_ok_speakAnalysis_finally
          split: prod.splits option.splits exn.splits)
qed

lemma timers_ok_stopSpeaking: "timers_ok w \<Longrightarrow> timers_ok (stopSpeaking w)"
  by (simp add: stopSpeaking_def Let_def timers_ok_tts_stop timers_ok_silent)

lemma timers_ok_destroy: "timers_ok w \<Longrightarrow> timers_ok (destroy w)"
  by (simp add: destroy_def stt_destroy_def tts_destroy_def vad_destroy_def Let_def
        timers_ok_silent timers_ok_tts_stop timers_ok_stt_stopListening timers_ok_vad_stop)

lemma timers_ok_initialize: "timers_ok w \<Longrightarrow> timers_ok (snd (initialize fault w))"
  by (auto simp: timers_ok_def initialize_def initialize_catch_def throws_def stt_initialize_def
        tts_initialize_def vad_initialize_def coordinator_defs Let_def
        split: option.splits prod.splits exn.splits)


lemma next_timer_None: "next_timer ts = None \<longleftrightarrow> ts = []"
  by (induction ts) (auto split: option.splits)

lemma next_timer_Some:
  "next_timer ts = Some t \<Longrightarrow> t \<in> set ts \<and> (\<forall>u \<in> set ts. due t \<le> due u)"
proof (induction ts arbitrary: t)
  case Nil
  then show ?case by simp
next
  case (Cons a ts)
  show ?case
  proof (cases "next_timer ts")
    case None
    then have "ts = []" by (simp add: next_timer_None)
    then show ?thesis using Cons.prems by simp
  next
    case (Some u)
    then have u: "u \<in> set ts" "\<forall>v \<in> set ts. due u \<le> due v" using Cons.IH by blast+
    show ?thesis
    proof (cases "due u < due a")
      case True
      then have "t = u" using Cons.prems Some by simp
      then show ?thesis using u True by auto
    next
      case False
      then have "t = a" using Cons.prems Some by simp
      then show ?thesis using u False by fastforce
    qed
  qed
qed

lemma timers_ok_rearm:
  assumes "timers_ok w" and first: "\<forall>u \<in> set (timers w). due t \<le> due u"
  shows "timers_ok (w\<lparr>now := max (now w) (due t), timers := rearm t (timers w)\<rparr>)"
proof (cases "period t")
  case None
  then show ?thesis using assms by (auto simp: timers_ok_def rearm_def distinct_map_filter)
next
  case (Some p)
  have "map handle (rearm t (timers w)) = map handle (timers w)"
    by (simp add: rearm_def Some comp_def if_distrib cong: if_cong)
  moreover have key: "u \<in> set (rearm t (timers w)) \<Longrightarrow>
      \<exists>v \<in> set (timers w). handle u = handle v \<and> callback u = callback v \<and>
         period u = period v \<and> due v \<le> due u" for u
  proof -
    assume "u \<in> set (rearm t (timers w))"
    then obtain x where x: "x \<in> set (timers w)"
        "u = (if handle x = handle t then Timer (handle x) (due x + p) (period x) (callback x) else x)"
      by (auto simp: rearm_def Some)
    then have "handle u = handle x \<and> callback u = callback x \<and> period u = period x \<and>
        due x \<le> due u"
      by (cases "handle x = handle t") simp_all
    then show ?thesis using x(1) by blast
  qed
  ultimately show ?thesis using assms unfolding timers_ok_def
    by (auto simp del: set_map dest!: key)
qed

lemma rearm_final:
  assumes "timers_ok w" and "t \<in> set (timers w)" and "is_final (callback t)"
  shows "pending is_final (w\<lparr>now := n, timers := rearm t (timers w)\<rparr>) = []"
proof -
  have "period t = None" using assms by (auto simp: timers_ok_def)
  moreover have "\<forall>u \<in> set (timers w). is_final (callback u) \<longrightarrow> handle u = handle t"
    using assms unfolding timers_ok_def by (metis option.inject)
  ultimately show ?thesis by (auto simp: pending_def rearm_def filter_empty_conv)
qed

lemma rearm_finish:
  assumes "timers_ok w" and "t \<in> set (timers w)" and "is_finish (callback t)"
  shows "pending is_finish (w\<lparr>now := n, timers := rearm t (timers w)\<rparr>) = []"
proof -
  have "period t = None" using assms by (auto simp: timers_ok_def)
  moreover have "\<forall>u \<in> set (timers w). is_finish (callback u) \<longrightarrow> handle u = handle t"
    using assms unfolding timers_ok_def by (metis option.inject)
  ultimately show ?thesis by (auto simp: pending_def rearm_def filter_empty_conv)
qed

lemma timers_ok_tick: "timers_ok w \<Longrightarrow> timers_ok (tick r w)"
proof (cases "next_timer (timers w)")
  case None
  assume "timers_ok w"
  then show ?thesis by (simp add: tick_def None)
next
  case (Some t)
  assume ok: "timers_ok w"
  let ?w1 = "w\<lparr>now := max (now w) (due t), timers := rearm t (timers w)\<rparr>"
  have t: "t \<in> set (timers w)" and first: "\<forall>u \<in> set (timers w). due t \<le> due u"
    using Some next_timer_Some by blast+
  have ok1: "timers_ok ?w1" using ok first by (rule timers_ok_rearm)
  have "timers_ok (run_callback (callback t) r ?w1)"
  proof (cases "callback t")
    case (SttInterim scope i words)
    then show ?thesis using ok1 by (simp add: timers_ok_stt_interim)
  next
    case (SttFinal sc tx)
    then have "pending is_final ?w1 = []" using rearm_final [OF ok t] by simp
    then show ?thesis using ok1 SttFinal by (simp add: timers_ok_stt_final)
  next
    case (TtsFinish awaited)
    then have "pending is_finish ?w1 = []" using rearm_finish [OF ok t] by simp
    then have "timers_ok (tts_finish ?w1)" using ok1 by (simp add: timers_ok_tts_finish)
    then show ?thesis using TtsFinish
      by (simp add: Let_def speakAnalysis_resume_def timers_ok_speakAnalysis_finally timers_ok_silent)
  next
    case (VadPoll scope)
    then show ?thesis using ok1 by (simp add: timers_ok_vad_poll)
  next
    case RecordingTimeout
    then show ?thesis using ok1
      by (simp add: recordingTimeout_fired_def timers_ok_stopListening timers_ok_silent)
  next
    case ProcessingDone
    then show ?thesis using ok1 by (simp add: processingDone_def timers_ok_silent)
  qed
  then show ?thesis by (simp add: tick_def Some)
qed

lemma timers_ok_wait: "timers_ok w \<Longrightarrow> timers_ok (wait d w)"
  by (auto simp: timers_ok_def wait_def list_all_iff)

lemma timers_ok_call: "timers_ok w \<Longrightarrow> timers_ok (call e w)"
  by (cases e)
    (simp_all add: stt_initialize_def tts_initialize_def vad_initialize_def stt_destroy_def
      tts_destroy_def vad_destroy_def timers_ok_silent timers_ok_stt_startListening
      timers_ok_stt_stopListening timers_ok_tts_speak timers_ok_tts_stop timers_ok_vad_start
      timers_ok_vad_stop)

lemma timers_ok_exec: "timers_ok w \<Longrightarrow> timers_ok (exec c w)"
  by (cases c)
    (simp_all add: timers_ok_initialize timers_ok_startListening timers_ok_stopListening
      timers_ok_speakAnalysis timers_ok_stopSpeaking timers_ok_destroy timers_ok_tick
      vad_triggerSilence_def timers_ok_silent timers_ok_wait timers_ok_call)

lemma timers_ok_world0: "timers_ok world0"
  by (simp add: timers_ok_def world0_def)

lemma reachable_timers_ok: "reachable w \<Longrightarrow> timers_ok w"
  by (induction rule: reachable.induct) (simp_all add: timers_ok_world0 timers_ok_exec)

lemma timers_ok_one_final: "timers_ok w \<Longrightarrow> length (pending is_final w) \<le> 1"
proof -
  assume ok: "timers_ok w"
  have d: "distinct (map handle (pending is_final w))"
    using ok by (simp add: timers_ok_def pending_def distinct_map_filter)
  have "\<forall>t \<in> set (pending is_final w). Some (handle t) = stt_currentTimeout w"
    using ok by (auto simp: timers_ok_def pending_def)
  then have "set (map handle (pending is_final w)) \<subseteq> {the (stt_currentTimeout w)}"
    by (auto dest!: bspec) (metis option.sel)
  then have "card (set (map handle (pending is_final w))) \<le> 1"
    by (metis card_mono finite.emptyI finite.insertI card.empty card.insert One_nat_def empty_iff le_refl)
  then show ?thesis using d by (simp add: distinct_card del: set_map)
qed

section \<open>Concrete pipelines\<close>

lemmas op_defs =
  startListening_def startListening_try_def startListening_catch_def stopListening_def
  speakAnalysis_def speakAnalysis_finally_def speakAnalysis_resume_def stopSpeaking_def
  vadEnabled_def maxRecordingMs_def
  vad_start_def vad_stop_def vad_poll_def
  stt_startListening_def stt_stopListening_def stt_destroy_def stt_interim_def stt_final_def
  tts_speak_def tts_stop_def tts_finish_def
  scheduleInterims_eq interimTimers_def MOCK_TRANSCRIPTS_def

lemma world_ready_eq:
  "world_ready =
     world0\<lparr>stt_initialized := True, stt_onTranscript := True,
       tts_initialized := True, tts_onStatus := True,
       vad_initialized := True, vad_onVAD := True,
       isInitialized := True,
       events :=
         [Thought ''Initializing voice pipeline...'' T_processing,
          Thought ''Loading STT model: Whisper Tiny English'' T_processing,
          Thought ''Whisper STT engine ready'' T_success,
          Thought ''Loading TTS model: Piper Lessac Medium'' T_processing,
          Thought ''Piper TTS engine ready'' T_success,
          Thought ''Initializing Voice Activity Detection...'' T_processing,
          Thought ''VAD module ready'' T_success,
          Thought ''Voice pipeline fully initialized'' T_success,
          StateChange Idle False]\<rparr>"
  by (simp add: world_ready_def initialize_def throws_def stt_initialize_def tts_initialize_def
        vad_initialize_def coordinator_defs world0_def)

lemma world_ready_flags:
  "isInitialized world_ready" "currentState world_ready = Idle"
  "stt_initialized world_ready" "tts_initialized world_ready" "vad_initialized world_ready"
  "stt_onTranscript world_ready" "tts_onStatus world_ready" "vad_onVAD world_ready"
  "\<not> stt_isListening world_ready" "\<not> tts_isSpeaking world_ready" "\<not> vad_isActive world_ready"
  "timers world_ready = []" "next_handle world_ready = 1" "next_scope world_ready = 0"
  "now world_ready = 0"
  by (simp_all add: world_ready_eq world0_def)

lemma world_listening_eq:
  "world_listening =
     world_ready\<lparr>next_handle := 7,
       timers :=
         [Timer 1 500 (Some 500) (VadPoll 0),
          Timer 2 400 None (SttInterim 1 0 [''audit'', ''the'', ''repository'']),
          Timer 3 750 None (SttInterim 1 1 [''audit'', ''the'', ''repository'']),
          Timer 4 1100 None (SttInterim 1 2 [''audit'', ''the'', ''repository'']),
          Timer 5 2000 None (SttFinal 1 ''audit the repository''),
          Timer 6 30000 None RecordingTimeout],
       next_scope := 2,
       partialText := (partialText world_ready)(1 := []),
       speechDetected := (speechDetected world_ready)(0 := False),
       stt_isListening := True, stt_currentTimeout := Some 5, stt_interimTimeout := Some 4,
       vad_isActive := True, vad_simulationInterval := Some 1,
       currentState := Listening, recordingTimeout := Some 6,
       events := events world_ready @
         [StateChange Listening False, Thought ''Listening for voice command...'' T_processing]\<rparr>"
  by (simp add: world_listening_def world_ready_eq world0_def op_defs coordinator_defs
        engine_defs upt_rec numeral_2_eq_2 numeral_3_eq_3)


lemma world_listening_flags:
  "isInitialized world_listening" "currentState world_listening = Listening"
  "stt_initialized world_listening" "tts_initialized world_listening"
  "stt_onTranscript world_listening" "tts_onStatus world_listening" "vad_onVAD world_listening"
  "stt_isListening world_listening" "\<not> tts_isSpeaking world_listening"
  "vad_isActive world_listening"
  "next_handle world_listening = 7" "now world_listening = 0"
  "stt_currentTimeout world_listening = Some 5" "stt_interimTimeout world_listening = Some 4"
  by (simp_all add: world_listening_eq world_ready_flags)

lemma reachable_world_ready: "reachable world_ready"
proof -
  have "reachable (exec (Initialize None) world0)"
    by (rule reachable_step [OF reachable_init]) simp
  then show ?thesis by (simp add: world_ready_def)
qed

lemma reachable_world_listening: "reachable world_listening"
proof -
  have "reachable (exec (StartListening 0) world_ready)"
    by (rule reachable_step [OF reachable_world_ready]) (simp add: valid_random_def)
  then show ?thesis by (simp add: world_listening_def)
qed

section \<open>Initialisation\<close>

text \<open>
  C3. A call of \<open>initialize\<close> either runs every step (the three engines ready, the
  callbacks wired, the coordinator initialised), publishes the state \<open>Idle\<close> last and
  returns true; or the step of engine \<open>en\<close> throws, no later step runs (the engines from
  \<open>en\<close> on, the wiring and the initialised flag are as before the call), the state
  \<open>Error\<close> is published last and the call returns false.
\<close>

theorem initialize_outcome:
  "(case fault of
      None \<Rightarrow>
        fst (initialize fault w) \<and>
        currentState (snd (initialize fault w)) = Idle \<and>
        last (events (snd (initialize fault w))) = StateChange Idle (vad_isActive w) \<and>
        isInitialized (snd (initialize fault w)) \<and>
        stt_initialized (snd (initialize fault w)) \<and>
        tts_initialized (snd (initialize fault w)) \<and>
        vad_initialized (snd (initialize fault w)) \<and>
        stt_onTranscript (snd (initialize fault w)) \<and>
        tts_onStatus (snd (initialize fault w)) \<and>
        vad_onVAD (snd (initialize fault w))
    | Some (en, e) \<Rightarrow>
        \<not> fst (initialize fault w) \<and>
        currentState (snd (initialize fault w)) = Error \<and>
        last (events (snd (initialize fault w))) = StateChange Error (vad_isActive w) \<and>
        isInitialized (snd (initialize fault w)) = isInitialized w \<and>
        stt_onTranscript (snd (initialize fault w)) = stt_onTranscript w \<and>
        tts_onStatus (snd (initialize fault w)) = tts_onStatus w \<and>
        vad_onVAD (snd (initialize fault w)) = vad_onVAD w \<and>
        vad_initialized (snd (initialize fault w)) = vad_initialized w \<and>
        tts_initialized (snd (initialize fault w)) =
          (if en = VAD then True else tts_initialized w) \<and>
        stt_initialized (snd (initialize fault w)) =
          (if en = STT then stt_initialized w else True))"
proof (cases fault)
  case None
  then show ?thesis
    by (simp add: initialize_def throws_def stt_initialize_def tts_initialize_def
        vad_initialize_def coordinator_defs)
next
  case (Some p)
  obtain en e where p: "p = (en, e)" by (cases p)
  obtain msg where e: "e = Exn msg" by (cases e)
  show ?thesis
    by (cases en)
      (simp_all add: Some p e initialize_def initialize_catch_def throws_def stt_initialize_def
        tts_initialize_def vad_initialize_def coordinator_defs)
qed

section \<open>Stopping the synthesis engine\<close>

lemma events_tts_stop:
  "events (tts_stop w) =
     events w @ (if tts_onStatus w
                 then [TtsStatus Finished, TTSStatusChange False, StateChange Idle (vad_isActive w)]
                 else [])"
  by (cases "tts_currentTimeout w")
     (simp_all add: tts_stop_def coordinator_defs engine_defs)

lemma currentState_tts_stop:
  "currentState (tts_stop w) = (if tts_onStatus w then Idle else currentState w)"
  by (cases "tts_currentTimeout w")
     (simp_all add: tts_stop_def coordinator_defs engine_defs)

text \<open>
  C10. With the status callback wired, every call of the synthesis engine's \<open>stop\<close>,
  whether or not an utterance is in progress, makes the "finished" status call; so
  \<open>stopSpeaking\<close> publishes a state change to \<open>Idle\<close> and leaves the pipeline state
  \<open>Idle\<close>, whatever the state was.
\<close>

theorem stop_always_finishes:
  "tts_onStatus w \<Longrightarrow>
   emitted w (tts_stop w) =
     [TtsStatus Finished, TTSStatusChange False, StateChange Idle (vad_isActive w)] \<and>
   emitted w (stopSpeaking w) =
     [TtsStatus Finished, TTSStatusChange False, StateChange Idle (vad_isActive w)] \<and>
   currentState (stopSpeaking w) = Idle"
  by (simp add: emitted_def events_tts_stop stopSpeaking_def currentState_tts_stop Let_def)

theorem stop_always_finishes_witness:
  "tts_onStatus world_listening \<and> \<not> tts_isSpeaking world_listening \<and>
   currentState world_listening = Listening \<and>
   emitted world_listening (stopSpeaking world_listening) =
     [TtsStatus Finished, TTSStatusChange False, StateChange Idle True] \<and>
   currentState (stopSpeaking world_listening) = Idle"
  using stop_always_finishes [of world_listening] by (simp add: world_listening_flags)

section \<open>Failures of the engines\<close>

lemma currentState_stopListening:
  "currentState (stopListening w) = (if currentState w = Listening then Idle else currentState w)"
  by (cases "recordingTimeout w"; cases "stt_currentTimeout w"; cases "stt_interimTimeout w";
      cases "vad_simulationInterval w")
     (simp_all add: stopListening_def stt_stopListening_def vad_stop_def coordinator_defs Let_def)

lemma tts_initialized_stopListening: "tts_initialized (stopListening w) = tts_initialized w"
  by (cases "recordingTimeout w"; cases "stt_currentTimeout w"; cases "stt_interimTimeout w";
      cases "vad_simulationInterval w")
     (simp_all add: stopListening_def stt_stopListening_def vad_stop_def coordinator_defs Let_def)

lemma speakAnalysis_failure:
  "isInitialized w \<Longrightarrow> \<not> tts_initialized w \<Longrightarrow> currentState (speakAnalysis txt w) = Idle"
  by (simp add: speakAnalysis_def tts_speak_def speakAnalysis_finally_def Let_def
        tts_initialized_stopListening coordinator_defs)

lemma startListening_failure:
  assumes "isInitialized w" and "currentState w \<noteq> Listening"
    and "startListening_try r (if tts_isSpeaking w then tts_stop w else w) = (Some e, w')"
  shows "currentState (startListening r w) = Error"
proof -
  obtain msg where "e = Exn msg" by (cases e)
  then show ?thesis using assms
    by (simp add: startListening_def startListening_catch_def Let_def coordinator_defs)
qed


lemma clearTimeout_fields [simp]:
  "currentState (clearTimeout h w) = currentState w"
  "events (clearTimeout h w) = events w"
  "isInitialized (clearTimeout h w) = isInitialized w"
  "now (clearTimeout h w) = now w"
  "next_handle (clearTimeout h w) = next_handle w"
  "next_scope (clearTimeout h w) = next_scope w"
  "partialText (clearTimeout h w) = partialText w"
  "speechDetected (clearTimeout h w) = speechDetected w"
  "stt_initialized (clearTimeout h w) = stt_initialized w"
  "stt_isListening (clearTimeout h w) = stt_isListening w"
  "stt_onTranscript (clearTimeout h w) = stt_onTranscript w"
  "stt_currentTimeout (clearTimeout h w) = stt_currentTimeout w"
  "stt_interimTimeout (clearTimeout h w) = stt_interimTimeout w"
  "tts_initialized (clearTimeout h w) = tts_initialized w"
  "tts_isSpeaking (clearTimeout h w) = tts_isSpeaking w"
  "tts_onStatus (clearTimeout h w) = tts_onStatus w"
  "tts_currentTimeout (clearTimeout h w) = tts_currentTimeout w"
  "vad_initialized (clearTimeout h w) = vad_initialized w"
  "vad_isActive (clearTimeout h w) = vad_isActive w"
  "vad_onVAD (clearTimeout h w) = vad_onVAD w"
  "vad_simulationInterval (clearTimeout h w) = vad_simulationInterval w"
  "recordingTimeout (clearTimeout h w) = recordingTimeout w"
  by (cases h; simp)+

lemma clearTimeout_update [simp]:
  "clearTimeout h (w\<lparr>stt_isListening := b\<rparr>) = (clearTimeout h w)\<lparr>stt_isListening := b\<rparr>"
  "clearTimeout h (w\<lparr>vad_isActive := b\<rparr>) = (clearTimeout h w)\<lparr>vad_isActive := b\<rparr>"
  "clearTimeout h (w\<lparr>tts_isSpeaking := b\<rparr>) = (clearTimeout h w)\<lparr>tts_isSpeaking := b\<rparr>"
  by (cases h; simp)+

lemma error_stopListening: "currentState (stopListening w) = Error \<Longrightarrow> currentState w = Error"
  by (simp add: currentState_stopListening split: if_splits)

lemma error_speakAnalysis: "currentState (speakAnalysis txt w) = Error \<Longrightarrow> currentState w = Error"
  by (auto simp: speakAnalysis_def tts_speak_def speakAnalysis_finally_def tts_stop_def Let_def
        coordinator_defs engine_defs split: if_splits)

lemma error_stopSpeaking: "currentState (stopSpeaking w) = Error \<Longrightarrow> currentState w = Error"
  by (auto simp: stopSpeaking_def tts_stop_def Let_def coordinator_defs engine_defs split: if_splits)

lemma error_destroy: "currentState (destroy w) \<noteq> Error"
  by (simp add: destroy_def Let_def coordinator_defs)

lemma error_call: "currentState (call e w) = Error \<Longrightarrow> currentState w = Error"
  by (cases e)
    (auto simp: stt_initialize_def tts_initialize_def vad_initialize_def stt_destroy_def
      tts_destroy_def vad_destroy_def stt_stopListening_def vad_stop_def vad_start_def
      stt_startListening_def scheduleInterims_eq tts_speak_def tts_stop_def
      coordinator_defs engine_defs split: if_splits)

lemma error_run_callback:
  "currentState (run_callback cb r w) = Error \<Longrightarrow> currentState w = Error"
proof (cases cb)
  case (SttInterim sc i ws)
  assume "currentState (run_callback cb r w) = Error"
  then show ?thesis using SttInterim
    by (auto simp: stt_interim_def Let_def coordinator_defs engine_defs split: if_splits)
next
  case (SttFinal sc tx)
  assume "currentState (run_callback cb r w) = Error"
  then show ?thesis using SttFinal
    by (auto simp: stt_final_def Let_def coordinator_defs engine_defs split: if_splits prod.splits)
next
  case (TtsFinish a)
  assume "currentState (run_callback cb r w) = Error"
  then show ?thesis using TtsFinish
    by (auto simp: tts_finish_def speakAnalysis_resume_def speakAnalysis_finally_def Let_def
          coordinator_defs engine_defs split: if_splits)
next
  case (VadPoll sc)
  assume "currentState (run_callback cb r w) = Error"
  then show ?thesis using VadPoll
    by (auto simp: vad_poll_def Let_def coordinator_defs engine_defs split: if_splits)
next
  case RecordingTimeout
  assume "currentState (run_callback cb r w) = Error"
  then show ?thesis using RecordingTimeout
    by (auto simp: recordingTimeout_fired_def currentState_stopListening coordinator_defs
          split: if_splits)
next
  case ProcessingDone
  assume "currentState (run_callback cb r w) = Error"
  then show ?thesis using ProcessingDone
    by (auto simp: processingDone_def coordinator_defs split: if_splits)
qed

lemma error_tick: "currentState (tick r w) = Error \<Longrightarrow> currentState w = Error"
  by (cases "next_timer (timers w)") (auto simp: tick_def dest: error_run_callback)

lemma currentState_initialize: "currentState (snd (initialize None w)) = Idle"
  by (simp add: initialize_def throws_def stt_initialize_def tts_initialize_def
        vad_initialize_def coordinator_defs)

lemma startListening_success:
  assumes "startListening_try r w = (None, w')"
  shows "currentState w' = Listening"
  using assms
  by (auto simp: startListening_try_def vad_start_def stt_startListening_def scheduleInterims_eq
        Let_def coordinator_defs engine_defs split: if_splits prod.splits option.splits)

text \<open>
  C1, as the code has it. When the engine call of \<open>speakAnalysis\<close> throws (the synthesis
  engine is not ready), the pipeline state is left \<open>Idle\<close>. When the \<open>try\<close> block of
  \<open>startListening\<close> throws, the pipeline state is set to \<open>Error\<close>. A step that takes the
  pipeline into \<open>Error\<close> is a failing \<open>initialize\<close> or a \<open>startListening\<close> whose
  \<open>try\<close> block throws, and nothing else.
\<close>

theorem engine_failure_states:
  "(isInitialized w \<and> \<not> tts_initialized w \<longrightarrow> currentState (speakAnalysis txt w) = Idle) \<and>
   (isInitialized w \<and> currentState w \<noteq> Listening \<and>
    fst (startListening_try r (if tts_isSpeaking w then tts_stop w else w)) \<noteq> None
      \<longrightarrow> currentState (startListening r w) = Error) \<and>
   (currentState (exec c w) = Error \<and> currentState w \<noteq> Error \<longrightarrow>
      (\<exists>f. c = Initialize (Some f)) \<or>
      (\<exists>r'. c = StartListening r' \<and> isInitialized w \<and>
         fst (startListening_try r' (if tts_isSpeaking w then tts_stop w else w)) \<noteq> None))"
proof (intro conjI impI)
  assume "isInitialized w \<and> \<not> tts_initialized w"
  then show "currentState (speakAnalysis txt w) = Idle" by (simp add: speakAnalysis_failure)
next
  assume a: "isInitialized w \<and> currentState w \<noteq> Listening \<and>
    fst (startListening_try r (if tts_isSpeaking w then tts_stop w else w)) \<noteq> None"
  then obtain e w' where
    "startListening_try r (if tts_isSpeaking w then tts_stop w else w) = (Some e, w')"
    by (cases "startListening_try r (if tts_isSpeaking w then tts_stop w else w)") auto
  then show "currentState (startListening r w) = Error"
    using a startListening_failure by blast
next
  assume a: "currentState (exec c w) = Error \<and> currentState w \<noteq> Error"
  show "(\<exists>f. c = Initialize (Some f)) \<or>
      (\<exists>r'. c = StartListening r' \<and> isInitialized w \<and>
         fst (startListening_try r' (if tts_isSpeaking w then tts_stop w else w)) \<noteq> None)"
  proof (cases c)
    case (Initialize fault)
    then show ?thesis using a currentState_initialize [of w] by (cases fault) auto
  next
    case (StartListening r')
    let ?attempt = "startListening_try r' (if tts_isSpeaking w then tts_stop w else w)"
    obtain e w' where t: "?attempt = (e, w')" by (cases ?attempt)
    have init: "isInitialized w"
      using a StartListening by (auto simp: startListening_def coordinator_defs split: if_splits)
    have "e \<noteq> None"
    proof
      assume "e = None"
      then have "currentState w' = Listening" using t startListening_success by blast
      then show False using a StartListening t \<open>e = None\<close> init
        by (auto simp: startListening_def Let_def coordinator_defs split: if_splits)
    qed
    then show ?thesis using StartListening init t by simp
  next
    case StopListening
    then show ?thesis using a error_stopListening by auto
  next
    case (SpeakAnalysis tx)
    then show ?thesis using a error_speakAnalysis by auto
  next
    case StopSpeaking
    then show ?thesis using a error_stopSpeaking by auto
  next
    case Destroy
    then show ?thesis using a error_destroy by auto
  next
    case TriggerSilence
    then show ?thesis using a
      by (auto simp: vad_triggerSilence_def coordinator_defs engine_defs split: if_splits)
  next
    case (Direct e)
    then show ?thesis using a error_call by auto
  next
    case (Tick r')
    then show ?thesis using a error_tick by auto
  next
    case (Wait d)
    then show ?thesis using a by (auto simp: wait_def split: if_splits)
  qed
qed


lemma world_deaf_eq: "world_deaf = world_ready\<lparr>stt_initialized := False\<rparr>"
  by (simp add: world_deaf_def stt_destroy_def stt_stopListening_def Let_def world_ready_eq world0_def)

theorem engine_failure_states_witness:
  "isInitialized (tts_destroy world_ready) \<and> \<not> tts_initialized (tts_destroy world_ready) \<and>
   currentState (speakAnalysis ''done'' (tts_destroy world_ready)) = Idle \<and>
   isInitialized world_deaf \<and> currentState world_deaf = Idle \<and>
   fst (startListening_try 0 world_deaf) = Some (Exn ''WhisperSTT not initialized'') \<and>
   currentState (exec (StartListening 0) world_deaf) = Error"
proof -
  have speechless: "isInitialized (tts_destroy world_ready)" "\<not> tts_initialized (tts_destroy world_ready)"
    by (simp_all add: tts_destroy_def tts_stop_def Let_def coordinator_defs engine_defs
          world_ready_eq world0_def)
  have deaf: "isInitialized world_deaf" "currentState world_deaf = Idle" "\<not> tts_isSpeaking world_deaf"
    by (simp_all add: world_deaf_eq world_ready_flags)
  have thrown: "fst (startListening_try 0 world_deaf) = Some (Exn ''WhisperSTT not initialized'')"
    by (simp add: world_deaf_eq world_ready_eq world0_def startListening_try_def vadEnabled_def
          vad_start_def stt_startListening_def Let_def coordinator_defs engine_defs)
  have "currentState (speakAnalysis ''done'' (tts_destroy world_ready)) = Idle"
    using engine_failure_states [of "tts_destroy world_ready" "''done''"] speechless by blast
  moreover have "currentState (startListening 0 world_deaf) = Error"
    using engine_failure_states [of world_deaf _ 0] deaf thrown by simp
  ultimately show ?thesis using speechless deaf thrown by simp
qed

text \<open>
  C1, as stated, fails for \<open>startListening\<close>: on an initialised coordinator whose speech
  engine is not ready, the engine throws, the \<open>catch\<close> clause runs, and the pipeline
  state is \<open>Error\<close>, not \<open>Idle\<close>.
\<close>

theorem startListening_failure_counterexample:
  "isInitialized world_deaf \<and>
   fst (startListening_try 0 world_deaf) = Some (Exn ''WhisperSTT not initialized'') \<and>
   currentState world_deaf = Idle \<and>
   currentState (startListening 0 world_deaf) = Error \<and>
   currentState (startListening 0 world_deaf) \<noteq> Idle"
  by (simp add: world_deaf_eq world_ready_eq world0_def startListening_def startListening_try_def
        startListening_catch_def vadEnabled_def vad_start_def stt_startListening_def Let_def
        coordinator_defs engine_defs)

section \<open>One listening session at a time\<close>






text \<open>
  C6. On an initialised coordinator in state \<open>Listening\<close>, \<open>startListening\<close> publishes
  the warning and changes nothing else: no timer is set. And in every state the pipeline
  can reach, at most one final-transcript callback is pending.
\<close>

theorem startListening_rejected_while_listening:
  "(isInitialized w \<and> currentState w = Listening \<longrightarrow>
      startListening r w = w\<lparr>events := events w @ [Thought ''Already listening...'' T_warning]\<rparr>) \<and>
   (reachable w \<longrightarrow> length (pending is_final w) \<le> 1)"
proof (intro conjI impI)
  assume "isInitialized w \<and> currentState w = Listening"
  then show "startListening r w = w\<lparr>events := events w @ [Thought ''Already listening...'' T_warning]\<rparr>"
    by (simp add: startListening_def coordinator_defs)
next
  assume "reachable w"
  then have "timers_ok w" by (rule reachable_timers_ok)
  then show "length (pending is_final w) \<le> 1" by (rule timers_ok_one_final)
qed

theorem startListening_rejected_while_listening_witness:
  "isInitialized world_listening \<and> currentState world_listening = Listening \<and>
   reachable world_listening \<and>
   timers (startListening (1/2) world_listening) = timers world_listening \<and>
   emitted world_listening (startListening (1/2) world_listening) =
     [Thought ''Already listening...'' T_warning] \<and>
   length (pending is_final world_listening) \<le> 1"
  using startListening_rejected_while_listening [of world_listening "1/2"]
  by (simp add: world_listening_flags reachable_world_listening emitted_def)

section \<open>Speaking while listening\<close>

lemma stopListening_flags:
  "stt_isListening (stopListening w) = False"
  "vad_isActive (stopListening w) = False"
  "tts_initialized (stopListening w) = tts_initialized w"
  "tts_onStatus (stopListening w) = tts_onStatus w"
  "tts_isSpeaking (stopListening w) = tts_isSpeaking w"
  "tts_currentTimeout (stopListening w) = tts_currentTimeout w"
  "next_handle (stopListening w) = next_handle w"
  "now (stopListening w) = now w"
  "events (stopListening w) =
     events w @ (if currentState w = Listening then [StateChange Idle False] else [])"
  by (simp_all add: stopListening_def stt_stopListening_def vad_stop_def Let_def coordinator_defs)





section \<open>Cancelling timers\<close>









section \<open>Speaking: statuses and duration\<close>

lemma wordCount_pos: "0 < length (split_sp s)"
  by (induction s) (auto split: list.splits)


lemma cappedDuration_words:
  "cappedDuration txt = min (max 1000 (real (length (split_sp txt)) * 400)) 5000"
  by (simp add: cappedDuration_def durationMs_def)

lemma tts_finish_emitted:
  "tts_onStatus w \<Longrightarrow>
   emitted w (tts_finish w) =
     [TtsStatus Finished, TTSStatusChange False, StateChange Idle (vad_isActive w)] \<and>
   \<not> tts_isSpeaking (tts_finish w)"
  by (simp add: emitted_def tts_finish_def coordinator_defs engine_defs)






section \<open>What each operation publishes\<close>

lemma addsI: "events w' = events w @ es \<Longrightarrow> list_all Q es \<Longrightarrow> adds Q w w'"
  by (simp add: adds_def emitted_def)

lemma adds_events: "adds Q w w' \<Longrightarrow> events w' = events w @ emitted w w' \<and> list_all Q (emitted w w')"
  by (simp add: adds_def emitted_def) (metis append_take_drop_id)

lemma adds_refl: "adds Q w w"
  by (simp add: adds_def emitted_def)

lemma adds_trans: "adds Q w w' \<Longrightarrow> adds Q w' w'' \<Longrightarrow> adds Q w w''"
proof -
  assume "adds Q w w'" and "adds Q w' w''"
  then have "events w'' = events w @ (emitted w w' @ emitted w' w'')"
    and "list_all Q (emitted w w' @ emitted w' w'')"
    using adds_events by fastforce+
  then show ?thesis by (rule addsI)
qed



lemma adds_silent:
  "published e \<Longrightarrow> adds published w (emit e w)"
  "adds published w (addThought m ty w)"
  "adds published w (updateState st w)"
  "adds published w (onStatus_handler s w)"
  "adds published w (tts_callback s w)"
  "adds published w (clearTimeout h w)"
  by (simp_all add: adds_def emitted_def published_def coordinator_defs engine_defs)

lemma adds_parseAndDispatchCommand: "adds published w (parseAndDispatchCommand tx c w)"
  by (simp add: adds_def emitted_def published_def coordinator_defs engine_defs split: prod.splits)

lemma adds_tts_stop: "adds published w (tts_stop w)"
  by (simp add: adds_def emitted_def published_def events_tts_stop)

lemma adds_tts_finish: "adds published w (tts_finish w)"
  by (simp add: adds_def emitted_def published_def tts_finish_def coordinator_defs engine_defs)

lemma adds_tts_speak: "adds published w (snd (tts_speak a tx w))"
  by (simp add: adds_def emitted_def published_def tts_speak_def events_tts_stop coordinator_defs
        engine_defs)

lemma adds_stopListening: "adds published w (stopListening w)"
  by (simp add: adds_def emitted_def published_def stopListening_flags)





lemma adds_then: "adds Q w' w'' \<Longrightarrow> adds Q w w' \<Longrightarrow> adds Q w w''"
  using adds_trans by blast

lemma adds_speakAnalysis_finally: "adds published w (speakAnalysis_finally w)"
  by (simp add: speakAnalysis_finally_def adds_silent adds_refl)

lemmas adds_steps =
  adds_silent [THEN adds_then] adds_tts_stop [THEN adds_then] adds_tts_finish [THEN adds_then]
  adds_tts_speak [THEN adds_then] adds_stopListening [THEN adds_then]
  adds_speakAnalysis_finally [THEN adds_then] adds_parseAndDispatchCommand [THEN adds_then]







lemma adds_speakAnalysis_resume: "adds published w (speakAnalysis_resume w)"
  by (auto simp: speakAnalysis_resume_def intro!: adds_steps adds_refl)





section \<open>The activity detector\<close>









section \<open>Confidences within one utterance\<close>















































lemmas run_defs =
  tick_def rearm_def wait_def recordingTimeout_fired_def processingDone_def parseCommand_def



lemma world_heard_events:
  "emitted world_listening world_heard =
     [SttTranscript 1 ''audit'' (1/2) False, Transcript ''audit'' (1/2) False,
      VadSignal True,
      SttTranscript 1 ''audit the'' (3/5) False, Transcript ''audit the'' (3/5) False,
      SttTranscript 1 ''audit the repository'' (7/10) False,
      Transcript ''audit the repository'' (7/10) False,
      SttTranscript 1 ''audit the repository'' (191/200) True,
      Transcript ''audit the repository'' (191/200) True,
      Thought ''Transcript: audit the repository'' T_info,
      Thought ''Command detected: audit the repository'' T_success,
      StateChange Processing True,
      Command ''audit'' Audit ''audit the repository'' (191/200)]"
  by (simp add: world_heard_def run_def emitted_def world_listening_eq world_ready_eq world0_def
        run_defs op_defs coordinator_defs engine_defs interimConfidence_def finalConfidence_def
        trim_def toLowerCase_def toLowerCase_char_def isWhiteSpace_def COMMAND_KEYWORDS_def
        str_includes_def)



text \<open>
  What the interim timer left pending does (see C2): it runs in the session started
  next, between the transcripts of the new utterance.
\<close>

lemma leftover_interim_runs_in_next_session:
  "pending is_interim world_restarted =
     [Timer 3 750 None (SttInterim 1 1 [''audit'', ''the'', ''repository'']),
      Timer 8 900 None (SttInterim 3 0 [''stop'', ''listening'']),
      Timer 9 1250 None (SttInterim 3 1 [''stop'', ''listening''])] \<and>
   emitted world_restarted (run [Tick 0, Tick 0] world_restarted) =
     [SttTranscript 1 ''audit the'' (3/5) False, Transcript ''audit the'' (3/5) False,
      SttTranscript 3 ''stop'' (1/2) False, Transcript ''stop'' (1/2) False]"
  by (simp add: world_restarted_def run_def emitted_def pending_def world_listening_eq
        world_ready_eq world0_def run_defs op_defs coordinator_defs engine_defs
        interimConfidence_def upt_rec numeral_2_eq_2)

end
